theory Spec2Isabelle
  imports Complex_Main "HOL-Library.AList" "HOL-Library.Sublist"
begin

section \<open>Python values and exceptions\<close>

text \<open>
  The values that travel through \<^verbatim>\<open>database.py\<close>: keyword arguments, column values and
  ids. A float is either a finite number or one of the three special values; timestamps
  (\<^verbatim>\<open>datetime\<close>) are counted in ticks of the clock's resolution.
\<close>

datatype pyfloat = Finite rat | PosInf | NegInf | NaN

datatype pyval = VNone | VBool bool | VInt int | VFloat pyfloat | VStr string | VDatetime nat

text \<open>
  The exception classes. \<open>NotFoundError\<close> is the class the specification names for a
  failed id lookup; \<^verbatim>\<open>database.py\<close> defines no such class and no function below
  returns it.
\<close>

datatype error = AttributeError | KeyError | TypeError | ValueError | OverflowError
  | InvalidRequestError | IntegrityError | StaleDataError | NotFoundError

text \<open>Python's truth value of an object, as \<^verbatim>\<open>if commit:\<close> and \<^verbatim>\<open>if limit:\<close> test it.\<close>

fun truthy :: "pyval \<Rightarrow> bool" where
  "truthy VNone = False"
| "truthy (VBool b) = b"
| "truthy (VInt i) = (i \<noteq> 0)"
| "truthy (VFloat (Finite q)) = (q \<noteq> 0)"
| "truthy (VFloat _) = True"
| "truthy (VStr s) = (s \<noteq> [])"
| "truthy (VDatetime t) = True"

text \<open>
  A string is the list of its characters, with code points up to 255. \<^verbatim>\<open>str.isdigit\<close> is
  true of a non-empty string whose characters all are digits in Unicode's sense: among
  these code points the ten ASCII digits and the superscripts two, three and one
  (U+00B2, U+00B3, U+00B9).
\<close>

definition ascii_digit :: "char \<Rightarrow> bool" where
  "ascii_digit c = (c \<in> set ''0123456789'')"

definition superscript_digit :: "char \<Rightarrow> bool" where
  "superscript_digit c = (c = CHR 0xB2 \<or> c = CHR 0xB3 \<or> c = CHR 0xB9)"

definition isdigit :: "string \<Rightarrow> bool" where
  "isdigit s = (s \<noteq> [] \<and> list_all (\<lambda>c. ascii_digit c \<or> superscript_digit c) s)"

definition digit_value :: "char \<Rightarrow> int" where
  "digit_value c = int (of_char c) - 48"

definition int_of_digits :: "string \<Rightarrow> int" where
  "int_of_digits s = foldl (\<lambda>a c. 10 * a + digit_value c) 0 s"

text \<open>
  \<^verbatim>\<open>int(id)\<close>: a bool is an int, a finite float is truncated toward zero, NaN raises
  ValueError and an infinity raises OverflowError. Of strings only those that pass
  \<^verbatim>\<open>isdigit\<close> reach \<^verbatim>\<open>int\<close> in this module: \<^verbatim>\<open>int\<close> reads the ASCII digits, raises
  ValueError on a superscript digit, and raises ValueError on a string of more than
  \<^verbatim>\<open>sys.int_info.default_max_str_digits\<close> = 4300 digits, leading zeros counted.
\<close>

definition default_max_str_digits :: nat where
  "default_max_str_digits = 4300"

fun py_int :: "pyval \<Rightarrow> error + int" where
  "py_int (VBool b) = Inr (if b then 1 else 0)"
| "py_int (VInt i) = Inr i"
| "py_int (VFloat (Finite q)) = Inr (if q < 0 then \<lceil>q\<rceil> else \<lfloor>q\<rfloor>)"
| "py_int (VFloat NaN) = Inl ValueError"
| "py_int (VFloat PosInf) = Inl OverflowError"
| "py_int (VFloat NegInf) = Inl OverflowError"
| "py_int (VStr s) =
     (if s \<noteq> [] \<and> list_all ascii_digit s \<and> length s \<le> default_max_str_digits
      then Inr (int_of_digits s) else Inl ValueError)"
| "py_int VNone = Inl TypeError"
| "py_int (VDatetime t) = Inl TypeError"

section \<open>Table metadata\<close>

text \<open>
  A column descriptor with the options this module sets: the type, the primary-key flag,
  nullability, the foreign keys it carries, and the generators of \<^verbatim>\<open>default=\<close> and
  \<^verbatim>\<open>onupdate=\<close>, for which the module uses \<^verbatim>\<open>datetime.utcnow\<close> only. A column is
  known to its class under its name. The column types are those the module names:
  \<^verbatim>\<open>db.Integer\<close>, \<^verbatim>\<open>db.Float\<close>, \<^verbatim>\<open>db.Double\<close>, \<^verbatim>\<open>db.Boolean\<close>, \<^verbatim>\<open>db.String\<close> and
  \<^verbatim>\<open>db.TIMESTAMP\<close>.
\<close>

datatype gen = Utcnow

datatype coltype = db_Integer | db_Float | db_Double | db_Boolean | db_String | db_TIMESTAMP

record column =
  name :: string
  col_type :: coltype
  primary_key :: bool
  nullable :: bool
  foreign_keys :: "string list"
  col_default :: "gen option"
  col_onupdate :: "gen option"

text \<open>
  An entity class, as far as the operations read it: \<^verbatim>\<open>__tablename__\<close>, the ordered
  columns of \<^verbatim>\<open>__table__\<close>, and the names of its other attributes, those for which
  \<^verbatim>\<open>hasattr(cls, name)\<close> holds though they name no column: the methods and properties
  it inherits, such as \<^verbatim>\<open>save\<close> and \<^verbatim>\<open>commit\<close>. A column is not given the name of
  such a member.
\<close>

record model =
  tablename :: string
  columns :: "column list"
  class_attributes :: "string list"

text \<open>
  The members that the classes \<^verbatim>\<open>ModelCRUD\<close>, \<^verbatim>\<open>BaseModel\<close> and \<^verbatim>\<open>AssociationModel\<close>
  define.
\<close>

definition database_members :: "string list" where
  "database_members = [''create'', ''update'', ''save'', ''delete'', ''commit'',
     ''table_name'', ''model_name'', ''create_or_update'', ''update_by_id'', ''delete_by_id'',
     ''get_by_id'', ''get_by_ids'', ''new_relationship'', ''new_parent_relationship'',
     ''new_child_relationship'', ''new_fk'', ''get_scalars'', ''get_all'', ''get_first'',
     ''select'', ''get_table_as_list'', ''display'', ''get_columns'', ''get_column_names'',
     ''fk_names'']"

definition new_timestamp_column :: "string \<Rightarrow> gen option \<Rightarrow> gen option \<Rightarrow> column" where
  "new_timestamp_column attr dflt onupd =
     \<lparr>name = attr, col_type = db_TIMESTAMP, primary_key = False, nullable = True,
      foreign_keys = [], col_default = dflt, col_onupdate = onupd\<rparr>"

definition table_name :: "model \<Rightarrow> string" where
  "table_name cls = tablename cls"

text \<open>\<^verbatim>\<open>new_fk\<close>: an integer column that references \<^verbatim>\<open>{name}.id\<close>.\<close>

definition new_fk :: "model \<Rightarrow> string \<Rightarrow> string option \<Rightarrow> bool \<Rightarrow> column" where
  "new_fk cls attr target nullable' =
     (let target = (case target of None \<Rightarrow> table_name cls | Some n \<Rightarrow> n) in
      \<lparr>name = attr, col_type = db_Integer, primary_key = False, nullable = nullable',
       foreign_keys = [target @ ''.id''], col_default = None, col_onupdate = None\<rparr>)"

text \<open>The three columns every \<^verbatim>\<open>TableModel\<close> declares.\<close>

definition TableModel_id :: column where
  "TableModel_id =
     \<lparr>name = ''id'', col_type = db_Integer, primary_key = True, nullable = False,
      foreign_keys = [], col_default = None, col_onupdate = None\<rparr>"

definition TableModel_created_at :: column where
  "TableModel_created_at = new_timestamp_column ''created_at'' (Some Utcnow) None"

definition TableModel_updated_at :: column where
  "TableModel_updated_at = new_timestamp_column ''updated_at'' (Some Utcnow) (Some Utcnow)"

definition get_columns :: "model \<Rightarrow> column list" where
  "get_columns cls = columns cls"


text \<open>
  \<^verbatim>\<open>AssociationModel.fk_names\<close>, a property of the class: each access evaluates
  \<^verbatim>\<open>[c.name for c in cls.get_columns() if c.foreign_keys]\<close>.
\<close>

definition fk_names :: "model \<Rightarrow> string list" where
  "fk_names cls = map name (filter (\<lambda>c. foreign_keys c \<noteq> []) (get_columns cls))"

section \<open>Instances, rows and the session\<close>

text \<open>
  A row of the table and the attributes of a mapped object are both lists of named
  values; a keyword dictionary is the list of its items (Python keeps the keys distinct).
  Reading a column attribute that was never set gives \<^verbatim>\<open>None\<close>.
\<close>

type_synonym row = "(string \<times> pyval) list"

type_synonym kwargs = "(string \<times> pyval) list"

definition getattr :: "row \<Rightarrow> string \<Rightarrow> pyval" where
  "getattr r n = (case map_of r n of Some v \<Rightarrow> v | None \<Rightarrow> VNone)"

definition setattr :: "row \<Rightarrow> string \<Rightarrow> pyval \<Rightarrow> row" where
  "setattr r n v = AList.update n v r"

text \<open>
  A mapped object: the row it is attached to (the identity key under which the session
  holds it), \<open>None\<close> for an object that was never added; its column attributes; the
  names of the column attributes that are expired, which the object no longer holds and
  reads again from its row when they are next accessed (for these \<open>attrs\<close> has the value
  of the row as the object last knew it); and the other attributes set on the instance,
  which hide a method of the class that has the same name.
\<close>

record inst =
  ident :: "int option"
  attrs :: row
  expired :: "string list"
  extra :: row

text \<open>
  Modelled from the spec: the transactional session \<^verbatim>\<open>db.session\<close> of the module
  \<^verbatim>\<open>extensions\<close>, which is not among the sources (spec section 6: register a record,
  delete a record, commit, execute a query). The spec names the operations; what they do
  is taken from the SQLAlchemy session that \<^verbatim>\<open>db\<close> wraps, over the SQLite engine that
  \<^verbatim>\<open>settings.py\<close> configures. \<open>rows\<close> is the table as the session's next query sees
  it, that is the committed rows with the changes of the open unit of work applied (the
  session flushes before it queries, so the model applies a change when it is made);
  \<open>committed\<close> is the table as of the last commit. A statement that the engine rejects
  raises IntegrityError and the open transaction is rolled back. \<open>clock\<close> lists the
  readings that successive calls of \<^verbatim>\<open>datetime.utcnow\<close> return and \<open>ticks\<close> counts
  the calls made so far.
\<close>

record session =
  rows :: "row list"
  committed :: "row list"
  clock :: "nat \<Rightarrow> nat"
  ticks :: nat

type_synonym 'a result = "(error + 'a) \<times> session"

definition utcnow :: "session \<Rightarrow> pyval \<times> session" where
  "utcnow st = (VDatetime (clock st (ticks st)), st\<lparr>ticks := Suc (ticks st)\<rparr>)"

fun gen_value :: "gen \<Rightarrow> session \<Rightarrow> pyval \<times> session" where
  "gen_value Utcnow st = utcnow st"

text \<open>Rows are keyed by the integer column \<^verbatim>\<open>id\<close> that \<^verbatim>\<open>TableModel\<close> declares.\<close>

definition row_id :: "row \<Rightarrow> int option" where
  "row_id r = (case getattr r ''id'' of VInt i \<Rightarrow> Some i | _ \<Rightarrow> None)"

definition stored_ids :: "session \<Rightarrow> int list" where
  "stored_ids st = List.map_filter row_id (rows st)"

text \<open>
  Modelled from the spec: the id the storage engine assigns on insert (spec section 3),
  here one more than the largest id in the table, as the SQLite engine of
  \<^verbatim>\<open>settings.py\<close> does.
\<close>

definition next_id :: "session \<Rightarrow> int" where
  "next_id st = (if stored_ids st = [] then 1 else Max (set (stored_ids st)) + 1)"

text \<open>
  Modelled from the spec: the object a query or a \<^verbatim>\<open>get\<close> returns for a row, with every
  column attribute loaded from the row.
\<close>

definition load :: "row \<Rightarrow> inst" where
  "load r = \<lparr>ident = row_id r, attrs = r, expired = [], extra = []\<rparr>"

text \<open>
  Modelled from the spec: the integers the storage engine holds, SQLite's 64-bit signed
  integers. Binding another one as a parameter raises OverflowError.
\<close>

definition sqlite_integer :: "int \<Rightarrow> bool" where
  "sqlite_integer i = (- (2 ^ 63) \<le> i \<and> i < 2 ^ 63)"

definition rollback :: "session \<Rightarrow> session" where
  "rollback st = st\<lparr>rows := committed st\<rparr>"

text \<open>
  Modelled from the spec: the INSERT of a new object. A column takes the value the
  object carries; an unset primary key is assigned by the engine; an unset column with
  a \<^verbatim>\<open>default=\<close> calls its generator, column by column.
\<close>

definition insert_value :: "column \<Rightarrow> row \<Rightarrow> int \<Rightarrow> session \<Rightarrow> pyval \<times> session" where
  "insert_value c a fresh st =
     (if getattr a (name c) \<noteq> VNone then (getattr a (name c), st)
      else if primary_key c then (VInt fresh, st)
      else (case col_default c of None \<Rightarrow> (VNone, st) | Some g \<Rightarrow> gen_value g st))"

fun insert_values :: "column list \<Rightarrow> row \<Rightarrow> int \<Rightarrow> session \<Rightarrow> row \<times> session" where
  "insert_values [] a fresh st = ([], st)"
| "insert_values (c # cs) a fresh st =
     (let (v, st1) = insert_value c a fresh st;
          (r, st2) = insert_values cs a fresh st1
      in ((name c, v) # r, st2))"

text \<open>
  Modelled from the spec: the UPDATE of an attached object on which the attributes
  \<open>keys\<close> were assigned, those of \<open>unloaded\<close> among them while the object held no
  value for them. The session counts an assigned column as changed when the new value
  differs from the one the object had loaded, and always when the object held none to
  compare with. A changed column takes the new value; a column that is not changed keeps
  the value of the row, unless it has an \<^verbatim>\<open>onupdate=\<close>, whose generator is then
  called.
\<close>

record assigned =
  keys :: "string list"
  unloaded :: "string list"

definition changed :: "inst \<Rightarrow> assigned \<Rightarrow> row \<Rightarrow> column \<Rightarrow> bool" where
  "changed obj asg old c =
     (name c \<in> set (keys asg)
      \<and> (name c \<in> set (unloaded asg) \<or> getattr (attrs obj) (name c) \<noteq> getattr old (name c)))"

definition update_value ::
  "column \<Rightarrow> inst \<Rightarrow> assigned \<Rightarrow> row \<Rightarrow> session \<Rightarrow> pyval \<times> session" where
  "update_value c obj asg old st =
     (if changed obj asg old c then (getattr (attrs obj) (name c), st)
      else (case col_onupdate c of
              None \<Rightarrow> (getattr old (name c), st)
            | Some g \<Rightarrow> gen_value g st))"

fun update_values ::
  "column list \<Rightarrow> inst \<Rightarrow> assigned \<Rightarrow> row \<Rightarrow> session \<Rightarrow> row \<times> session" where
  "update_values [] obj asg old st = ([], st)"
| "update_values (c # cs) obj asg old st =
     (let (v, st1) = update_value c obj asg old st;
          (r, st2) = update_values cs obj asg old st1
      in ((name c, v) # r, st2))"

text \<open>
  Modelled from the spec: the constraints the engine checks, NOT NULL and an integer key
  not in use. SQLite as \<^verbatim>\<open>settings.py\<close> configures it does not enforce foreign keys, and
  the tables of this model have no other constraint.
\<close>

definition not_null_ok :: "model \<Rightarrow> row \<Rightarrow> bool" where
  "not_null_ok cls r = list_all (\<lambda>c. nullable c \<or> getattr r (name c) \<noteq> VNone) (columns cls)"

definition flush_insert :: "model \<Rightarrow> inst \<Rightarrow> session \<Rightarrow> inst result" where
  "flush_insert cls obj st =
     (let (r, st1) = insert_values (columns cls) (attrs obj) (next_id st) st in
      case row_id r of
        None \<Rightarrow> (Inl IntegrityError, rollback st1)
      | Some i \<Rightarrow>
          if i \<notin> set (stored_ids st) \<and> not_null_ok cls r
          then (Inr \<lparr>ident = Some i, attrs = r, expired = [], extra = extra obj\<rparr>,
                st1\<lparr>rows := rows st1 @ [r]\<rparr>)
          else (Inl IntegrityError, rollback st1))"

definition unchanged :: "model \<Rightarrow> inst \<Rightarrow> assigned \<Rightarrow> row \<Rightarrow> bool" where
  "unchanged cls obj asg old = list_all (\<lambda>c. \<not> changed obj asg old c) (columns cls)"

text \<open>
  Modelled from the spec: the flush of an attached object on which attributes were
  assigned. No UPDATE is emitted when no column counts as changed. For an UPDATE the
  session reads the key of the object, which loads what was expired.
\<close>

definition flush_update :: "model \<Rightarrow> inst \<Rightarrow> assigned \<Rightarrow> session \<Rightarrow> inst result" where
  "flush_update cls obj asg st =
     (case ident obj of
        None \<Rightarrow> (Inr obj, st)
      | Some i \<Rightarrow>
          (case find (\<lambda>r. row_id r = Some i) (rows st) of
             None \<Rightarrow> (Inl StaleDataError, rollback st)
           | Some old \<Rightarrow>
               if unchanged cls obj asg old then (Inr obj, st)
               else
                 (let (r, st1) = update_values (columns cls) obj asg old st in
                  case row_id r of
                    None \<Rightarrow> (Inl IntegrityError, rollback st1)
                  | Some j \<Rightarrow>
                      if (j = i \<or> j \<notin> set (stored_ids st)) \<and> not_null_ok cls r
                      then (Inr \<lparr>ident = Some j, attrs = r, expired = [], extra = extra obj\<rparr>,
                            st1\<lparr>rows := map (\<lambda>x. if row_id x = Some i then r else x) (rows st1)\<rparr>)
                      else (Inl IntegrityError, rollback st1))))"

text \<open>Modelled from the spec: \<^verbatim>\<open>db.session.add\<close>, a no-op on an attached object.\<close>

definition session_add :: "model \<Rightarrow> inst \<Rightarrow> session \<Rightarrow> inst result" where
  "session_add cls obj st =
     (case ident obj of None \<Rightarrow> flush_insert cls obj st | Some i \<Rightarrow> (Inr obj, st))"

text \<open>Modelled from the spec: \<^verbatim>\<open>db.session.delete\<close>, which refuses an object never added.\<close>

definition session_delete :: "inst \<Rightarrow> session \<Rightarrow> unit result" where
  "session_delete obj st =
     (case ident obj of
        None \<Rightarrow> (Inl InvalidRequestError, st)
      | Some i \<Rightarrow>
          if i \<in> set (stored_ids st)
          then (Inr (), st\<lparr>rows := filter (\<lambda>r. row_id r \<noteq> Some i) (rows st)\<rparr>)
          else (Inl StaleDataError, rollback st))"

text \<open>
  Modelled from the spec: \<^verbatim>\<open>db.session.commit\<close>. The session is configured with
  \<^verbatim>\<open>expire_on_commit\<close>, its default: a commit expires every column attribute of the
  objects the session holds. The model records this on the object that the committing
  call returns.
\<close>

definition session_commit :: "session \<Rightarrow> unit result" where
  "session_commit st = (Inr (), st\<lparr>committed := rows st\<rparr>)"

text \<open>Modelled from the spec: the object after a commit, every column attribute expired.\<close>

definition expire_all :: "model \<Rightarrow> inst \<Rightarrow> inst" where
  "expire_all cls obj = obj\<lparr>expired := map name (columns cls)\<rparr>"

text \<open>
  Modelled from the spec: \<^verbatim>\<open>db.session.get(cls, key)\<close>, the object with that key or
  \<^verbatim>\<open>None\<close>; the key is bound as a parameter of the query.
\<close>

definition session_get :: "model \<Rightarrow> int \<Rightarrow> session \<Rightarrow> inst option result" where
  "session_get cls i st =
     (if sqlite_integer i
      then (Inr (map_option load (find (\<lambda>r. row_id r = Some i) (rows st))), st)
      else (Inl OverflowError, st))"

text \<open>
  Modelled from the spec: the query builder (spec section 6). A select statement holds
  its equality criteria and its limit. \<^verbatim>\<open>filter_by\<close> is declared with keyword
  arguments only (\<^verbatim>\<open>filter_by(self, **kwargs)\<close>): a positional argument is a TypeError
  of the call, and a keyword that names no attribute of the entity is an
  InvalidRequestError. A positional condition is an expression such as
  \<^verbatim>\<open>cls.id.in_(ids)\<close>. A criterion compares the stored value with the given one;
  \<^verbatim>\<open>None\<close> matches a column that is null.
\<close>

datatype cond = In_list string "pyval list"

record query =
  criteria :: "(string \<times> pyval) list"
  lim :: "nat option"

definition db_select :: "model \<Rightarrow> query" where
  "db_select cls = \<lparr>criteria = [], lim = None\<rparr>"

definition filter_by :: "model \<Rightarrow> query \<Rightarrow> cond list \<Rightarrow> kwargs \<Rightarrow> error + query" where
  "filter_by cls q args kwargs =
     (if args \<noteq> [] then Inl TypeError
      else if list_all (\<lambda>(k, v). k \<in> set (map name (columns cls))) kwargs
      then Inr (q\<lparr>criteria := criteria q @ kwargs\<rparr>)
      else Inl InvalidRequestError)"

definition query_limit :: "query \<Rightarrow> nat \<Rightarrow> query" where
  "query_limit q n = q\<lparr>lim := Some n\<rparr>"

definition matches :: "(string \<times> pyval) list \<Rightarrow> row \<Rightarrow> bool" where
  "matches crit r = list_all (\<lambda>(k, v). getattr r k = v) crit"

text \<open>
  Modelled from the spec: \<^verbatim>\<open>db.session.execute\<close> with the three ways this module reads
  a result: \<^verbatim>\<open>scalars()\<close>, \<^verbatim>\<open>scalar()\<close> and \<^verbatim>\<open>all()\<close>, whose rows are one-element
  tuples.
\<close>

definition execute :: "query \<Rightarrow> session \<Rightarrow> inst list" where
  "execute q st =
     (let rs = filter (matches (criteria q)) (rows st) in
      map load (case lim q of None \<Rightarrow> rs | Some n \<Rightarrow> take n rs))"

definition scalars :: "inst list \<Rightarrow> inst list" where
  "scalars res = res"


definition all_rows :: "inst list \<Rightarrow> inst list list" where
  "all_rows res = map (\<lambda>x. [x]) res"

section \<open>ModelCRUD\<close>

text \<open>
  Modelled from the spec: an assignment to a column attribute that is expired. The
  object holds no value for it, and the attribute becomes one that was assigned
  unloaded. Only for a primary-key column the session first loads the object, to
  compare the key with the new value: that ends the expiry of every attribute not
  yet assigned, so that the assignments after it find their attributes loaded.
\<close>

definition key_column :: "model \<Rightarrow> string \<Rightarrow> bool" where
  "key_column cls k = list_ex (\<lambda>c. name c = k \<and> primary_key c) (columns cls)"

fun assigned_unloaded :: "model \<Rightarrow> string list \<Rightarrow> string list \<Rightarrow> string list" where
  "assigned_unloaded cls ex [] = []"
| "assigned_unloaded cls ex (k # ks) =
     (if k \<in> set ex
      then (if key_column cls k then [] else k # assigned_unloaded cls ex ks)
      else assigned_unloaded cls ex ks)"

fun expired_after :: "model \<Rightarrow> string list \<Rightarrow> string list \<Rightarrow> string list" where
  "expired_after cls ex [] = ex"
| "expired_after cls ex (k # ks) =
     (if k \<in> set ex
      then (if key_column cls k then [] else expired_after cls (removeAll k ex) ks)
      else expired_after cls ex ks)"

text \<open>
  \<^verbatim>\<open>setattr(self, attr, val)\<close> for each item of a keyword dictionary, in its order: an
  assignment to a column goes to the column attributes, any other name becomes an
  attribute of the instance.
\<close>

definition assign :: "model \<Rightarrow> inst \<Rightarrow> kwargs \<Rightarrow> inst" where
  "assign cls self kwargs =
     self\<lparr>attrs := foldl (\<lambda>a (k, v). setattr a k v) (attrs self)
                     (filter (\<lambda>(k, v). k \<in> set (map name (columns cls))) kwargs),
          expired := expired_after cls (expired self) (map fst kwargs),
          extra := foldl (\<lambda>a (k, v). setattr a k v) (extra self)
                     (filter (\<lambda>(k, v). k \<notin> set (map name (columns cls))) kwargs)\<rparr>"

text \<open>
  \<^verbatim>\<open>cls(**kwargs)\<close>: the constructor refuses with a TypeError a keyword that names no
  attribute of the class (\<^verbatim>\<open>hasattr(cls, k)\<close> is false) and assigns every other one
  with \<^verbatim>\<open>setattr\<close>, the name of a method as well as that of a column.
\<close>

definition new_instance :: "model \<Rightarrow> kwargs \<Rightarrow> error + inst" where
  "new_instance cls kwargs =
     (if list_all (\<lambda>(k, v). k \<in> set (map name (columns cls)) \<or> k \<in> set (class_attributes cls))
           kwargs
      then Inr (assign cls \<lparr>ident = None, attrs = [], expired = [], extra = []\<rparr> kwargs)
      else Inl TypeError)"

text \<open>
  A call \<^verbatim>\<open>self.m(...)\<close> reaches the method \<^verbatim>\<open>m\<close> of the class unless an attribute of
  the instance has that name. The values of this model are not callable: calling one
  is a TypeError.
\<close>

definition bound_method :: "inst \<Rightarrow> string \<Rightarrow> bool" where
  "bound_method self m = (map_of (extra self) m = None)"

definition commit :: "session \<Rightarrow> unit result" where
  "commit st = session_commit st"

text \<open>
  \<^verbatim>\<open>save\<close>: \<^verbatim>\<open>db.session.add(self)\<close>, then \<^verbatim>\<open>self.commit()\<close> under \<^verbatim>\<open>if commit:\<close>. The
  object it returns after a commit is expired.
\<close>

definition save :: "model \<Rightarrow> inst \<Rightarrow> bool \<Rightarrow> session \<Rightarrow> inst result" where
  "save cls self do_commit st =
     (case session_add cls self st of
        (Inl e, st1) \<Rightarrow> (Inl e, st1)
      | (Inr self1, st1) \<Rightarrow>
          if do_commit
          then (if bound_method self1 ''commit''
                then (case commit st1 of
                        (Inl e, st2) \<Rightarrow> (Inl e, st2)
                      | (Inr u, st2) \<Rightarrow> (Inr (expire_all cls self1), st2))
                else (Inl TypeError, st1))
          else (Inr self1, st1))"

definition create :: "model \<Rightarrow> bool \<Rightarrow> kwargs \<Rightarrow> session \<Rightarrow> inst result" where
  "create cls do_commit kwargs st =
     (case new_instance cls kwargs of
        Inl e \<Rightarrow> (Inl e, st)
      | Inr instance \<Rightarrow>
          if bound_method instance ''save'' then save cls instance do_commit st
          else (Inl TypeError, st))"

text \<open>
  \<^verbatim>\<open>update\<close>: every keyword is assigned with \<^verbatim>\<open>setattr\<close>, whatever its name; an attached
  object is then flushed, and \<^verbatim>\<open>self.save()\<close> commits.
\<close>

definition update :: "model \<Rightarrow> inst \<Rightarrow> bool \<Rightarrow> kwargs \<Rightarrow> session \<Rightarrow> inst result" where
  "update cls self do_commit kwargs st =
     (let self1 = assign cls self kwargs;
          asg = \<lparr>keys = map fst kwargs,
                 unloaded = assigned_unloaded cls (expired self) (map fst kwargs)\<rparr> in
      case flush_update cls self1 asg st of
        (Inl e, st1) \<Rightarrow> (Inl e, st1)
      | (Inr self2, st1) \<Rightarrow>
          if do_commit
          then (if bound_method self2 ''save'' then save cls self2 True st1
                else (Inl TypeError, st1))
          else (Inr self2, st1))"

definition delete :: "inst \<Rightarrow> bool \<Rightarrow> session \<Rightarrow> unit result" where
  "delete self do_commit st =
     (case session_delete self st of
        (Inl e, st1) \<Rightarrow> (Inl e, st1)
      | (Inr u, st1) \<Rightarrow>
          if do_commit
          then (if bound_method self ''commit'' then commit st1 else (Inl TypeError, st1))
          else (Inr (), st1))"

section \<open>BaseModel\<close>

text \<open>
  A call \<^verbatim>\<open>f(**kwargs)\<close> of a function with the keyword-only parameter
  \<^verbatim>\<open>commit=True\<close> binds an item named \<^verbatim>\<open>commit\<close> to that parameter and passes the
  other items on.
\<close>

definition bind_commit :: "kwargs \<Rightarrow> bool \<times> kwargs" where
  "bind_commit kwargs =
     (case map_of kwargs ''commit'' of
        None \<Rightarrow> (True, kwargs)
      | Some v \<Rightarrow> (truthy v, AList.delete ''commit'' kwargs))"

text \<open>\<^verbatim>\<open>BaseModel.create_or_update\<close>: \<^verbatim>\<open>return cls.create(**kwargs)\<close>.\<close>

definition BaseModel_create_or_update :: "model \<Rightarrow> kwargs \<Rightarrow> session \<Rightarrow> inst result" where
  "BaseModel_create_or_update cls kwargs st =
     (let (do_commit, kwargs1) = bind_commit kwargs in create cls do_commit kwargs1 st)"

definition isinstance_str :: "pyval \<Rightarrow> bool" where
  "isinstance_str v = (case v of VStr s \<Rightarrow> True | _ \<Rightarrow> False)"

definition isinstance_int_float :: "pyval \<Rightarrow> bool" where
  "isinstance_int_float v = (case v of VBool b \<Rightarrow> True | VInt i \<Rightarrow> True | VFloat f \<Rightarrow> True | _ \<Rightarrow> False)"

definition str_isdigit :: "pyval \<Rightarrow> bool" where
  "str_isdigit v = (case v of VStr s \<Rightarrow> isdigit s | _ \<Rightarrow> False)"

definition get_by_id :: "model \<Rightarrow> pyval \<Rightarrow> session \<Rightarrow> inst option result" where
  "get_by_id cls id' st =
     (if (isinstance_str id' \<and> str_isdigit id') \<or> isinstance_int_float id'
      then (case py_int id' of
              Inl e \<Rightarrow> (Inl e, st)
            | Inr i \<Rightarrow> session_get cls i st)
      else (Inr None, st))"

text \<open>
  \<^verbatim>\<open>update_by_id\<close> and \<^verbatim>\<open>delete_by_id\<close> look the attribute up on what \<^verbatim>\<open>get_by_id\<close>
  returned: on \<^verbatim>\<open>None\<close> that is an AttributeError. \<^verbatim>\<open>delete\<close> takes no keyword but
  \<^verbatim>\<open>commit\<close>, so any other keyword is a TypeError of the call. Neither returns a value.
\<close>

definition update_by_id :: "model \<Rightarrow> pyval \<Rightarrow> bool \<Rightarrow> kwargs \<Rightarrow> session \<Rightarrow> unit result" where
  "update_by_id cls id' do_commit kwargs st =
     (case get_by_id cls id' st of
        (Inl e, st1) \<Rightarrow> (Inl e, st1)
      | (Inr None, st1) \<Rightarrow> (Inl AttributeError, st1)
      | (Inr (Some r), st1) \<Rightarrow>
          if bound_method r ''update''
          then (case update cls r do_commit kwargs st1 of
                  (Inl e, st2) \<Rightarrow> (Inl e, st2)
                | (Inr r1, st2) \<Rightarrow> (Inr (), st2))
          else (Inl TypeError, st1))"

definition delete_by_id :: "model \<Rightarrow> pyval \<Rightarrow> bool \<Rightarrow> kwargs \<Rightarrow> session \<Rightarrow> unit result" where
  "delete_by_id cls id' do_commit kwargs st =
     (case get_by_id cls id' st of
        (Inl e, st1) \<Rightarrow> (Inl e, st1)
      | (Inr None, st1) \<Rightarrow> (Inl AttributeError, st1)
      | (Inr (Some r), st1) \<Rightarrow>
          if kwargs \<noteq> [] \<or> \<not> bound_method r ''delete'' then (Inl TypeError, st1)
          else delete r do_commit st1)"

text \<open>
  \<^verbatim>\<open>select\<close>: both the positional conditions and the keywords go through
  \<^verbatim>\<open>filter_by\<close>.
\<close>

definition select :: "model \<Rightarrow> cond list \<Rightarrow> kwargs \<Rightarrow> error + query" where
  "select cls conditions kwargs =
     (let query = db_select cls in
      case (if conditions \<noteq> [] then filter_by cls query conditions [] else Inr query) of
        Inl e \<Rightarrow> Inl e
      | Inr query1 \<Rightarrow>
          if kwargs \<noteq> [] then filter_by cls query1 [] kwargs else Inr query1)"

text \<open>\<^verbatim>\<open>get_by_ids\<close>: \<^verbatim>\<open>execute(db.select(cls).filter_by(cls.id.in_(ids))).scalars()\<close>.\<close>

definition get_by_ids :: "model \<Rightarrow> pyval list \<Rightarrow> session \<Rightarrow> inst list result" where
  "get_by_ids cls ids st =
     (case filter_by cls (db_select cls) [In_list ''id'' ids] [] of
        Inl e \<Rightarrow> (Inl e, st)
      | Inr q \<Rightarrow> (Inr (scalars (execute q st)), st))"

text \<open>\<^verbatim>\<open>get_scalars\<close>: the limit is applied under \<^verbatim>\<open>if limit:\<close>.\<close>

definition get_scalars ::
  "model \<Rightarrow> cond list \<Rightarrow> nat option \<Rightarrow> kwargs \<Rightarrow> session \<Rightarrow> inst list result" where
  "get_scalars cls conditions limit kwargs st =
     (case select cls conditions kwargs of
        Inl e \<Rightarrow> (Inl e, st)
      | Inr query \<Rightarrow>
          (let query1 = (case limit of
                           None \<Rightarrow> query
                         | Some n \<Rightarrow> if n \<noteq> 0 then query_limit query n else query)
           in (Inr (scalars (execute query1 st)), st)))"

definition get_all :: "model \<Rightarrow> session \<Rightarrow> inst list list result" where
  "get_all cls st =
     (case select cls [] [] of
        Inl e \<Rightarrow> (Inl e, st)
      | Inr q \<Rightarrow> (Inr (all_rows (execute q st)), st))"


definition get_table_as_list :: "model \<Rightarrow> session \<Rightarrow> pyval list list result" where
  "get_table_as_list cls st =
     (let columns' = get_columns cls in
      case get_scalars cls [] None [] st of
        (Inl e, st1) \<Rightarrow> (Inl e, st1)
      | (Inr rs, st1) \<Rightarrow>
          (Inr (map (\<lambda>r. map (\<lambda>c. getattr (attrs r) (name c)) columns') rs), st1))"

section \<open>AssociationModel\<close>



section \<open>Plain fields\<close>

text \<open>
  The conditions under which the theorems about creating and updating records are
  stated. A \<^verbatim>\<open>TableModel\<close> class has distinct column names, among them the three
  columns that \<^verbatim>\<open>TableModel\<close> declares; \<^verbatim>\<open>id\<close> is its only primary-key column; and
  it has the members that \<^verbatim>\<open>database.py\<close> defines, none of them hidden by a column of
  the same name. A value is a value of a column type when the
  engine stores it and returns it as it was given: \<^verbatim>\<open>None\<close>, or a 64-bit integer for
  \<^verbatim>\<open>db.Integer\<close>, a finite float for \<^verbatim>\<open>db.Float\<close> and \<^verbatim>\<open>db.Double\<close>, a bool for
  \<^verbatim>\<open>db.Boolean\<close>, a string for \<^verbatim>\<open>db.String\<close> and a timestamp for \<^verbatim>\<open>db.TIMESTAMP\<close>
  (SQLite converts other values to the column's affinity, so that the string \<^verbatim>\<open>'1'\<close>
  in an integer column is the integer 1). The fields of a call are plain when they are
  a keyword dictionary (distinct keys) whose items name ordinary columns of the class:
  not the primary key, which the engine assigns, not a column with an \<^verbatim>\<open>onupdate=\<close>
  generator, and not the name of a parameter of the methods (\<^verbatim>\<open>commit\<close>, \<^verbatim>\<open>cls\<close>,
  \<^verbatim>\<open>self\<close>), which the call would bind; and when they give each column a value of its
  type, \<^verbatim>\<open>None\<close> to nullable columns only. They supply what
  an insert requires when every NOT NULL column that the engine does not fill by itself
  gets a value from them.
\<close>

fun column_value :: "coltype \<Rightarrow> pyval \<Rightarrow> bool" where
  "column_value t VNone = True"
| "column_value t (VBool b) = (t = db_Boolean)"
| "column_value t (VInt i) = (t = db_Integer \<and> sqlite_integer i)"
| "column_value t (VFloat (Finite q)) = (t = db_Float \<or> t = db_Double)"
| "column_value t (VFloat _) = False"
| "column_value t (VStr s) = (t = db_String)"
| "column_value t (VDatetime d) = (t = db_TIMESTAMP)"

definition table_model :: "model \<Rightarrow> bool" where
  "table_model cls =
     (distinct (map name (columns cls)) \<and> TableModel_id \<in> set (columns cls)
      \<and> TableModel_created_at \<in> set (columns cls)
      \<and> TableModel_updated_at \<in> set (columns cls)
      \<and> list_all (\<lambda>c. primary_key c \<longrightarrow> name c = ''id'') (columns cls)
      \<and> list_all (\<lambda>m. m \<in> set (class_attributes cls) \<and> m \<notin> set (map name (columns cls)))
            database_members)"

definition plain_column :: "model \<Rightarrow> string \<Rightarrow> pyval \<Rightarrow> bool" where
  "plain_column cls k v =
     list_ex (\<lambda>c. name c = k \<and> \<not> primary_key c \<and> col_onupdate c = None
                  \<and> column_value (col_type c) v \<and> (nullable c \<or> v \<noteq> VNone)) (columns cls)"

definition plain_fields :: "model \<Rightarrow> kwargs \<Rightarrow> bool" where
  "plain_fields cls kwargs =
     (distinct (map fst kwargs)
      \<and> list_all (\<lambda>(k, v). k \<notin> {''commit'', ''cls'', ''self''} \<and> plain_column cls k v) kwargs)"

definition supplies_required :: "model \<Rightarrow> kwargs \<Rightarrow> bool" where
  "supplies_required cls kwargs =
     list_all (\<lambda>c. nullable c \<or> primary_key c \<or> col_default c \<noteq> None
                \<or> (case map_of kwargs (name c) of Some v \<Rightarrow> v \<noteq> VNone | None \<Rightarrow> False))
       (columns cls)"



text \<open>
  The lifetime of a record after its creation: successive committed updates, each applied
  to the object the one before returned. An update keeps \<^verbatim>\<open>created_at\<close> out of its
  fields when these are plain fields without an item of that name.
\<close>

fun update_all :: "model \<Rightarrow> inst \<Rightarrow> kwargs list \<Rightarrow> session \<Rightarrow> inst result" where
  "update_all cls r [] st = (Inr r, st)"
| "update_all cls r (kw # kws) st =
     (case update cls r True kw st of
        (Inl e, st1) \<Rightarrow> (Inl e, st1)
      | (Inr r1, st1) \<Rightarrow> update_all cls r1 kws st1)"

definition keeps_created_at :: "model \<Rightarrow> kwargs \<Rightarrow> bool" where
  "keeps_created_at cls kw = (plain_fields cls kw \<and> map_of kw ''created_at'' = None)"

section \<open>An example entity\<close>

text \<open>
  The association entity of the specification's example (spec section 8, P4):
  \<^verbatim>\<open>Enrollment(student_id, course_id, grade)\<close>, a \<^verbatim>\<open>TableModel\<close> with two foreign keys
  made by \<^verbatim>\<open>new_fk\<close>, and a session over its empty table. Its other attributes are the
  members that the classes of \<^verbatim>\<open>database.py\<close> define; what \<^verbatim>\<open>db.Model\<close> adds to them
  is left out. The theorems below are instantiated on them.
\<close>

definition Enrollment :: model where
  "Enrollment = \<lparr>tablename = ''enrollment'',
     columns = [TableModel_id, TableModel_created_at, TableModel_updated_at,
       new_fk \<lparr>tablename = ''student'', columns = [], class_attributes = []\<rparr>
         ''student_id'' None False,
       new_fk \<lparr>tablename = ''course'', columns = [], class_attributes = []\<rparr>
         ''course_id'' None False,
       \<lparr>name = ''grade'', col_type = db_String, primary_key = False, nullable = True,
        foreign_keys = [], col_default = None, col_onupdate = None\<rparr>],
     class_attributes = database_members\<rparr>"

definition empty_session :: session where
  "empty_session = \<lparr>rows = [], committed = [], clock = (\<lambda>n. 100 + n), ticks = 0\<rparr>"

text \<open>The session after one enrollment was created and committed.\<close>

definition enrolled_row :: row where
  "enrolled_row = [(''id'', VInt 1), (''created_at'', VDatetime 100),
     (''updated_at'', VDatetime 101), (''student_id'', VInt 1), (''course_id'', VInt 2),
     (''grade'', VStr ''A'')]"

definition enrolled_session :: session where
  "enrolled_session =
     \<lparr>rows = [enrolled_row], committed = [enrolled_row], clock = (\<lambda>n. 100 + n), ticks = 2\<rparr>"


text \<open>The two calls of the example: the same enrollment, graded A and then B.\<close>

definition grade_A :: kwargs where
  "grade_A = [(''student_id'', VInt 1), (''course_id'', VInt 2), (''grade'', VStr ''A'')]"

definition grade_B :: kwargs where
  "grade_B = [(''student_id'', VInt 1), (''course_id'', VInt 2), (''grade'', VStr ''B'')]"

section \<open>Column metadata\<close>

text \<open>
  Claim C8. For an association entity type, \<open>fk_names\<close> is the list of the names of
  exactly the columns of the entity's table that carry a foreign key, in the order in
  which the table declares them: it holds the name of every column of the entity with a
  foreign key and of no other, and it is a subsequence of the entity's column names. It
  is not stored: it is computed from the column metadata the class has when it is
  accessed, so that for whatever columns \<open>cs\<close> the class is given, \<open>fk_names\<close> is the
  list of the foreign-key columns among \<open>cs\<close>. In particular the name of a column that
  the class declares with \<open>new_fk\<close> is in \<open>fk_names\<close>.
\<close>

theorem fk_names_foreign_key_columns:
  "fk_names cls = map name (filter (\<lambda>c. foreign_keys c \<noteq> []) (columns cls))
   \<and> set (fk_names cls) = {name c |c. c \<in> set (columns cls) \<and> foreign_keys c \<noteq> []}
   \<and> subseq (fk_names cls) (map name (columns cls))
   \<and> fk_names (cls\<lparr>columns := cs\<rparr>) = map name (filter (\<lambda>c. foreign_keys c \<noteq> []) cs)
   \<and> (new_fk other attr target nl \<in> set (columns cls) \<longrightarrow> attr \<in> set (fk_names cls))"
proof -
  have 1: "fk_names cls = map name (filter (\<lambda>c. foreign_keys c \<noteq> []) (columns cls))" for cls
    by (simp add: fk_names_def get_columns_def)
  have 2: "set (fk_names cls) = {name c |c. c \<in> set (columns cls) \<and> foreign_keys c \<noteq> []}"
    by (auto simp: 1)
  have 3: "subseq (fk_names cls) (map name (columns cls))"
    unfolding 1 by (rule subseq_map) simp
  have 4: "fk_names (cls\<lparr>columns := cs\<rparr>) = map name (filter (\<lambda>c. foreign_keys c \<noteq> []) cs)"
    by (simp add: 1)
  have n: "name (new_fk other attr target nl) = attr"
    "foreign_keys (new_fk other attr target nl) \<noteq> []"
    by (simp_all add: new_fk_def Let_def)
  have 5: "new_fk other attr target nl \<in> set (columns cls) \<longrightarrow> attr \<in> set (fk_names cls)"
    unfolding 2 using n by (metis (mono_tags, lifting) mem_Collect_eq)
  from 1 2 3 4 5 show ?thesis by blast
qed

theorem fk_names_foreign_key_columns_witness:
  "new_fk \<lparr>tablename = ''course'', columns = [], class_attributes = []\<rparr> ''course_id'' None False
     \<in> set (columns Enrollment)
   \<and> ''course_id'' \<in> set (fk_names Enrollment)
   \<and> fk_names Enrollment = [''student_id'', ''course_id'']
   \<and> fk_names (Enrollment\<lparr>columns := [TableModel_id]\<rparr>) = []"
proof -
  have a: "new_fk \<lparr>tablename = ''course'', columns = [], class_attributes = []\<rparr>
             ''course_id'' None False \<in> set (columns Enrollment)"
    by (simp add: Enrollment_def)
  have b: "map name (filter (\<lambda>c. foreign_keys c \<noteq> []) (columns Enrollment))
             = [''student_id'', ''course_id'']"
    by (simp add: Enrollment_def new_fk_def TableModel_id_def
        TableModel_created_at_def TableModel_updated_at_def new_timestamp_column_def)
  have c: "map name (filter (\<lambda>c. foreign_keys c \<noteq> []) [TableModel_id]) = []"
    by (simp add: TableModel_id_def)
  show ?thesis
    using a b c
      fk_names_foreign_key_columns [of Enrollment "[TableModel_id]"
        "\<lparr>tablename = ''course'', columns = [], class_attributes = []\<rparr>" "''course_id''" None False]
    by simp
qed


section \<open>Lookups by id\<close>

lemma get_by_id_state: "snd (get_by_id cls v st) = st"
  by (simp add: get_by_id_def session_get_def split: sum.splits)

lemma sqlite_integer_small: "sqlite_integer 7" "sqlite_integer 1" "sqlite_integer (- 5)"
  by (simp_all add: sqlite_integer_def)

text \<open>
  Claim C4, as the code has it. \<open>get_by_ids\<close> hands the condition
  \<^verbatim>\<open>cls.id.in_(ids)\<close> to \<^verbatim>\<open>filter_by\<close> as a positional argument, which \<^verbatim>\<open>filter_by\<close>
  does not take: for every list of ids and every table the call raises TypeError and
  returns no record.
\<close>

theorem get_by_ids_raises: "get_by_ids cls ids st = (Inl TypeError, st)"
  by (simp add: get_by_ids_def filter_by_def)

text \<open>
  Claim C2, amended. When \<open>get_by_id\<close> returns \<^verbatim>\<open>None\<close> for the id, \<open>update_by_id\<close>
  and \<open>delete_by_id\<close> each fail with the AttributeError of the attribute lookup on
  \<^verbatim>\<open>None\<close>, whatever the fields and the commit flag, and leave the session, hence the
  stored table, as it was.
\<close>

theorem by_id_on_missing_record:
  assumes "fst (get_by_id cls id' st) = Inr None"
  shows "update_by_id cls id' do_commit kwargs st = (Inl AttributeError, st)
         \<and> delete_by_id cls id' do_commit kwargs st = (Inl AttributeError, st)"
proof -
  have "get_by_id cls id' st = (Inr None, st)"
    using assms get_by_id_state [of cls id' st] by (cases "get_by_id cls id' st") simp
  then show ?thesis
    by (simp add: update_by_id_def delete_by_id_def)
qed

theorem by_id_on_missing_record_witness:
  "fst (get_by_id Enrollment (VInt 7) empty_session) = Inr None
   \<and> update_by_id Enrollment (VInt 7) True [(''grade'', VStr ''A'')] empty_session
       = (Inl AttributeError, empty_session)
   \<and> delete_by_id Enrollment (VInt 7) True [] empty_session = (Inl AttributeError, empty_session)"
proof -
  have a: "fst (get_by_id Enrollment (VInt 7) empty_session) = Inr None"
    by (simp add: get_by_id_def isinstance_int_float_def session_get_def empty_session_def
        sqlite_integer_small)
  show ?thesis
    using a by_id_on_missing_record [OF a, of True "[(''grade'', VStr ''A'')]"]
      by_id_on_missing_record [OF a, of True "[]"] by simp
qed

text \<open>
  Claim C2 as stated fails: on the empty table \<open>get_by_id\<close> returns \<^verbatim>\<open>None\<close> for the
  id 7, and neither \<open>update_by_id\<close> nor \<open>delete_by_id\<close> fails with a NotFoundError.
\<close>

theorem by_id_not_NotFoundError:
  "fst (get_by_id Enrollment (VInt 7) empty_session) = Inr None
   \<and> fst (update_by_id Enrollment (VInt 7) True [(''grade'', VStr ''A'')] empty_session)
       \<noteq> Inl NotFoundError
   \<and> fst (delete_by_id Enrollment (VInt 7) True [] empty_session) \<noteq> Inl NotFoundError"
  by (simp add: update_by_id_def delete_by_id_def get_by_id_def isinstance_int_float_def
      session_get_def empty_session_def sqlite_integer_small)

lemma find_row_id_None:
  "i \<notin> set (stored_ids st) \<Longrightarrow> find (\<lambda>r. row_id r = Some i) (rows st) = None"
  by (force simp: stored_ids_def find_None_iff List.map_filter_def)

lemma isdigit_examples: "\<not> isdigit ''-5''" "isdigit ''1''"
  by (simp_all add: isdigit_def ascii_digit_def superscript_digit_def)

lemma find_enrolled: "find (\<lambda>r. row_id r = Some 1) (rows enrolled_session) = Some enrolled_row"
  by (simp add: enrolled_session_def enrolled_row_def row_id_def getattr_def)

lemma stored_ids_enrolled: "stored_ids enrolled_session = [1]"
  by (simp add: stored_ids_def enrolled_session_def enrolled_row_def row_id_def getattr_def
      List.map_filter_simps)

lemma ascii_digits_isdigit: "s \<noteq> [] \<Longrightarrow> list_all ascii_digit s \<Longrightarrow> isdigit s"
  by (simp add: isdigit_def list_all_iff)

text \<open>
  Claim C3, amended. \<open>get_by_id\<close> returns \<^verbatim>\<open>None\<close>, without raising and without
  touching the session, for every id that is \<^verbatim>\<open>None\<close>, a timestamp or a string for
  which \<^verbatim>\<open>isdigit\<close> is false (a string with a minus sign in it). For an id that is an
  integer, a bool, a finite float or a non-empty string of at most 4300 ASCII digits, and
  whose \<^verbatim>\<open>int\<close> is a 64-bit integer \<open>i\<close>, it returns \<^verbatim>\<open>None\<close> when no stored record
  has the id \<open>i\<close> (so for a negative number, as long as no record is stored under it)
  and otherwise the stored record with the id \<open>i\<close>.
\<close>

theorem get_by_id_soft_fail:
  "((id' = VNone \<or> (\<exists>t. id' = VDatetime t) \<or> (\<exists>s. id' = VStr s \<and> \<not> isdigit s))
      \<longrightarrow> get_by_id cls id' st = (Inr None, st))
   \<and> (((\<exists>s. id' = VStr s \<and> s \<noteq> [] \<and> list_all ascii_digit s
              \<and> length s \<le> default_max_str_digits)
        \<or> (\<exists>b. id' = VBool b) \<or> (\<exists>n. id' = VInt n) \<or> (\<exists>q. id' = VFloat (Finite q)))
       \<and> py_int id' = Inr i \<and> sqlite_integer i
      \<longrightarrow> (i \<notin> set (stored_ids st) \<longrightarrow> get_by_id cls id' st = (Inr None, st))
        \<and> (\<forall>r. find (\<lambda>r. row_id r = Some i) (rows st) = Some r
              \<longrightarrow> get_by_id cls id' st = (Inr (Some (load r)), st)))"
proof (intro conjI impI allI)
  assume "id' = VNone \<or> (\<exists>t. id' = VDatetime t) \<or> (\<exists>s. id' = VStr s \<and> \<not> isdigit s)"
  then show "get_by_id cls id' st = (Inr None, st)"
    by (auto simp: get_by_id_def isinstance_str_def isinstance_int_float_def str_isdigit_def)
next
  assume a: "((\<exists>s. id' = VStr s \<and> s \<noteq> [] \<and> list_all ascii_digit s
              \<and> length s \<le> default_max_str_digits)
        \<or> (\<exists>b. id' = VBool b) \<or> (\<exists>n. id' = VInt n) \<or> (\<exists>q. id' = VFloat (Finite q)))
       \<and> py_int id' = Inr i \<and> sqlite_integer i"
  then have "(isinstance_str id' \<and> str_isdigit id') \<or> isinstance_int_float id'"
    by (auto simp: isinstance_str_def str_isdigit_def isinstance_int_float_def
        ascii_digits_isdigit)
  then have g: "get_by_id cls id' st = session_get cls i st"
    using a by (simp add: get_by_id_def)
  have s: "session_get cls i st
             = (Inr (map_option load (find (\<lambda>r. row_id r = Some i) (rows st))), st)"
    using a by (simp add: session_get_def)
  {
    assume "i \<notin> set (stored_ids st)"
    then show "get_by_id cls id' st = (Inr None, st)"
      by (simp add: g s find_row_id_None)
  }
  {
    fix r assume "find (\<lambda>r. row_id r = Some i) (rows st) = Some r"
    then show "get_by_id cls id' st = (Inr (Some (load r)), st)"
      by (simp add: g s)
  }
qed

theorem get_by_id_soft_fail_witness:
  "get_by_id Enrollment (VStr ''-5'') enrolled_session = (Inr None, enrolled_session)
   \<and> get_by_id Enrollment (VInt (- 5)) enrolled_session = (Inr None, enrolled_session)
   \<and> get_by_id Enrollment (VStr ''1'') enrolled_session
       = (Inr (Some (load enrolled_row)), enrolled_session)"
proof -
  have 1: "get_by_id Enrollment (VStr ''-5'') enrolled_session = (Inr None, enrolled_session)"
    using get_by_id_soft_fail [of "VStr ''-5''" Enrollment enrolled_session 0]
    by (simp add: isdigit_examples)
  have 2: "get_by_id Enrollment (VInt (- 5)) enrolled_session = (Inr None, enrolled_session)"
    using get_by_id_soft_fail [of "VInt (- 5)" Enrollment enrolled_session "- 5"]
    by (simp add: stored_ids_enrolled sqlite_integer_small)
  have 3: "get_by_id Enrollment (VStr ''1'') enrolled_session
       = (Inr (Some (load enrolled_row)), enrolled_session)"
    using get_by_id_soft_fail [of "VStr ''1''" Enrollment enrolled_session 1] find_enrolled
    by (simp add: ascii_digit_def int_of_digits_def digit_value_def sqlite_integer_small
        default_max_str_digits_def)
  from 1 2 3 show ?thesis by simp
qed

text \<open>
  Claim C3 as stated fails. On the empty table, where no id matches a stored record,
  \<open>get_by_id\<close> raises for the float ids NaN (not a number) and minus infinity (a
  negative id), and for plus infinity; it raises for the string of the one character
  superscript two, for which \<^verbatim>\<open>isdigit\<close> is true and which \<^verbatim>\<open>int\<close> rejects, and for
  the integer \<open>2 ^ 63\<close>, which the engine cannot hold. And a negative number is looked up
  like any other: when a record was created under the id -5, \<open>get_by_id\<close> returns it
  for -5.
\<close>

theorem get_by_id_raises_on_nan_and_infinity:
  "rows empty_session = []
   \<and> fst (get_by_id Enrollment (VFloat NaN) empty_session) = Inl ValueError
   \<and> fst (get_by_id Enrollment (VFloat NegInf) empty_session) = Inl OverflowError
   \<and> fst (get_by_id Enrollment (VFloat PosInf) empty_session) = Inl OverflowError
   \<and> isdigit [CHR 0xB2]
   \<and> fst (get_by_id Enrollment (VStr [CHR 0xB2]) empty_session) = Inl ValueError
   \<and> fst (get_by_id Enrollment (VInt (2 ^ 63)) empty_session) = Inl OverflowError
   \<and> fst (get_by_id Enrollment (VInt (- 5))
            (snd (create Enrollment True ((''id'', VInt (- 5)) # grade_A) empty_session)))
       = Inr (Some (load [(''id'', VInt (- 5)),
            (''created_at'', VDatetime 100), (''updated_at'', VDatetime 101),
            (''student_id'', VInt 1), (''course_id'', VInt 2), (''grade'', VStr ''A'')]))"
proof -
  have 1: "rows empty_session = []
   \<and> fst (get_by_id Enrollment (VFloat NaN) empty_session) = Inl ValueError
   \<and> fst (get_by_id Enrollment (VFloat NegInf) empty_session) = Inl OverflowError
   \<and> fst (get_by_id Enrollment (VFloat PosInf) empty_session) = Inl OverflowError"
    by (simp add: get_by_id_def isinstance_int_float_def empty_session_def)
  have 2: "isdigit [CHR 0xB2]"
    by (simp add: isdigit_def superscript_digit_def)
  have 3: "fst (get_by_id Enrollment (VStr [CHR 0xB2]) empty_session) = Inl ValueError"
    using 2 by (simp add: get_by_id_def isinstance_str_def str_isdigit_def ascii_digit_def)
  have 4: "fst (get_by_id Enrollment (VInt (2 ^ 63)) empty_session) = Inl OverflowError"
    by (simp add: get_by_id_def isinstance_int_float_def session_get_def sqlite_integer_def)
  have 5: "fst (get_by_id Enrollment (VInt (- 5))
            (snd (create Enrollment True ((''id'', VInt (- 5)) # grade_A) empty_session)))
       = Inr (Some (load [(''id'', VInt (- 5)),
            (''created_at'', VDatetime 100), (''updated_at'', VDatetime 101),
            (''student_id'', VInt 1), (''course_id'', VInt 2), (''grade'', VStr ''A'')]))"
    by code_simp
  from 1 2 3 4 5 show ?thesis by blast
qed

section \<open>Creating records\<close>

lemma gen_value_frame [simp]:
  "rows (snd (gen_value g st)) = rows st" "committed (snd (gen_value g st)) = committed st"
  "clock (snd (gen_value g st)) = clock st"
  by (cases g; simp add: utcnow_def)+

lemma insert_value_frame [simp]:
  "rows (snd (insert_value c a f st)) = rows st"
  "committed (snd (insert_value c a f st)) = committed st"
  "clock (snd (insert_value c a f st)) = clock st"
  by (simp_all add: insert_value_def split: option.splits)

lemma insert_values_frame [simp]:
  "rows (snd (insert_values cs a f st)) = rows st"
  "committed (snd (insert_values cs a f st)) = committed st"
  "clock (snd (insert_values cs a f st)) = clock st"
  by (induction cs arbitrary: st; simp add: case_prod_beta Let_def)+

lemma flush_insert_appends:
  assumes "flush_insert cls obj st = (Inr r, st')"
  shows "rows st' = rows st @ [attrs r]" "committed st' = committed st"
  using assms
  by (auto simp: flush_insert_def case_prod_beta Let_def split: option.splits if_splits)

lemma expire_all_simps [simp]:
  "attrs (expire_all cls obj) = attrs obj" "ident (expire_all cls obj) = ident obj"
  "extra (expire_all cls obj) = extra obj" "expired (expire_all cls obj) = map name (columns cls)"
  by (simp_all add: expire_all_def)

lemma assign_ident [simp]: "ident (assign cls obj kwargs) = ident obj"
  by (simp add: assign_def)

lemma save_new_appends:
  assumes "ident obj = None" and "save cls obj do_commit st = (Inr r, st')"
  shows "rows st' = rows st @ [attrs r]" "do_commit \<Longrightarrow> committed st' = rows st'"
proof -
  obtain r1 st1 where f: "flush_insert cls obj st = (Inr r1, st1)"
    and s: "st' = (if do_commit then st1\<lparr>committed := rows st1\<rparr> else st1)"
    and r: "attrs r = attrs r1"
    using assms
    by (auto simp: save_def session_add_def commit_def session_commit_def
        split: sum.splits prod.splits if_splits)
  show "rows st' = rows st @ [attrs r]"
    using flush_insert_appends(1) [OF f] s r by simp
  show "do_commit \<Longrightarrow> committed st' = rows st'"
    using s by simp
qed

lemma create_appends:
  assumes "create cls do_commit kwargs st = (Inr r, st')"
  shows "rows st' = rows st @ [attrs r]" "do_commit \<Longrightarrow> committed st' = rows st'"
proof -
  obtain obj where n: "new_instance cls kwargs = Inr obj"
    and s: "save cls obj do_commit st = (Inr r, st')"
    using assms by (auto simp: create_def split: sum.splits if_splits)
  have i: "ident obj = None"
    using n by (auto simp: new_instance_def split: if_splits)
  show "rows st' = rows st @ [attrs r]"
    by (rule save_new_appends(1) [OF i s])
  show "do_commit \<Longrightarrow> committed st' = rows st'"
    by (rule save_new_appends(2) [OF i s])
qed

text \<open>
  Claim C5, amended. For fields with no item named \<^verbatim>\<open>commit\<close>,
  \<open>BaseModel.create_or_update\<close> is \<open>create\<close> with \<^verbatim>\<open>commit=True\<close>, in the value it
  returns and in the session it leaves; it makes no duplicate check: whenever it
  returns a record, that record is one more row of the table, and it is committed.
\<close>

theorem create_or_update_is_create:
  assumes "map_of kwargs ''commit'' = None"
  shows "BaseModel_create_or_update cls kwargs st = create cls True kwargs st
         \<and> (\<forall>r st'. BaseModel_create_or_update cls kwargs st = (Inr r, st')
               \<longrightarrow> rows st' = rows st @ [attrs r] \<and> committed st' = rows st')"
proof -
  have e: "BaseModel_create_or_update cls kwargs st = create cls True kwargs st"
    using assms by (simp add: BaseModel_create_or_update_def bind_commit_def)
  show ?thesis
    unfolding e using create_appends [of cls True kwargs st] by blast
qed

theorem create_or_update_is_create_witness:
  "map_of [(''student_id'', VInt 1), (''course_id'', VInt 2)] ''commit'' = None
   \<and> BaseModel_create_or_update Enrollment [(''student_id'', VInt 1), (''course_id'', VInt 2)]
        enrolled_session
      = create Enrollment True [(''student_id'', VInt 1), (''course_id'', VInt 2)] enrolled_session
   \<and> length (rows (snd (BaseModel_create_or_update Enrollment
        [(''student_id'', VInt 1), (''course_id'', VInt 2)] enrolled_session))) = 2"
proof -
  have a: "map_of [(''student_id'', VInt 1), (''course_id'', VInt 2)] ''commit'' = None"
    by simp
  have b: "length (rows (snd (BaseModel_create_or_update Enrollment
        [(''student_id'', VInt 1), (''course_id'', VInt 2)] enrolled_session))) = 2"
    by code_simp
  show ?thesis
    using a b create_or_update_is_create [OF a, of Enrollment enrolled_session] by simp
qed

text \<open>
  Claim C5 as stated fails: an item \<^verbatim>\<open>commit=False\<close> among the fields is bound to the
  \<^verbatim>\<open>commit\<close> parameter of \<open>create\<close>. The call then differs from
  \<open>create\<close> with \<^verbatim>\<open>commit=True\<close> on the same fields: the record is added to the
  session and nothing is committed, where a \<open>create\<close> with \<^verbatim>\<open>commit=True\<close> commits.
\<close>

theorem create_or_update_commit_keyword:
  "fst (BaseModel_create_or_update Enrollment
       [(''commit'', VBool False), (''student_id'', VInt 1), (''course_id'', VInt 2)] empty_session)
     \<noteq> fst (create Enrollment True
       [(''commit'', VBool False), (''student_id'', VInt 1), (''course_id'', VInt 2)] empty_session)
   \<and> rows (snd (BaseModel_create_or_update Enrollment
       [(''commit'', VBool False), (''student_id'', VInt 1), (''course_id'', VInt 2)] empty_session))
     \<noteq> []
   \<and> committed (snd (BaseModel_create_or_update Enrollment
       [(''commit'', VBool False), (''student_id'', VInt 1), (''course_id'', VInt 2)] empty_session))
     = []
   \<and> committed (snd (create Enrollment True
       [(''student_id'', VInt 1), (''course_id'', VInt 2)] empty_session)) \<noteq> []"
  by code_simp

section \<open>Queries\<close>


lemma load_attrs [simp]: "attrs (load r) = r"
  by (simp add: load_def)




text \<open>
  Claim C9. For a table of \<open>N\<close> rows, \<open>get_all\<close> returns \<open>N\<close> result rows, one per
  record, and \<open>get_table_as_list\<close> returns \<open>N\<close> lists; each has as many values as
  \<open>get_columns\<close> has columns, and its \<open>k\<close>-th value is the record's value of the
  \<open>k\<close>-th declared column.
\<close>

theorem get_all_and_table_as_list:
  "get_all cls st = (Inr (map (\<lambda>r. [load r]) (rows st)), st)
   \<and> length (map (\<lambda>r. [load r]) (rows st)) = length (rows st)
   \<and> (\<exists>tbl. get_table_as_list cls st = (Inr tbl, st)
        \<and> length tbl = length (rows st)
        \<and> (\<forall>j<length (rows st). length (tbl ! j) = length (get_columns cls)
              \<and> (\<forall>k<length (get_columns cls).
                    tbl ! j ! k = getattr (rows st ! j) (name (get_columns cls ! k)))))"
  by (simp add: get_all_def get_table_as_list_def get_scalars_def select_def db_select_def
      execute_def scalars_def all_rows_def matches_def comp_def)

theorem get_all_and_table_as_list_witness:
  "get_all Enrollment enrolled_session = (Inr [[load enrolled_row]], enrolled_session)
   \<and> get_table_as_list Enrollment enrolled_session
      = (Inr [[VInt 1, VDatetime 100, VDatetime 101, VInt 1, VInt 2, VStr ''A'']],
         enrolled_session)"
proof -
  have r: "rows enrolled_session = [enrolled_row]"
    by (simp add: enrolled_session_def)
  have v: "map (\<lambda>c. getattr enrolled_row (name c)) (get_columns Enrollment)
           = [VInt 1, VDatetime 100, VDatetime 101, VInt 1, VInt 2, VStr ''A'']"
    by (simp add: get_columns_def Enrollment_def new_fk_def TableModel_id_def
        TableModel_created_at_def TableModel_updated_at_def new_timestamp_column_def
        enrolled_row_def getattr_def)
  obtain tbl where t: "get_table_as_list Enrollment enrolled_session = (Inr tbl, enrolled_session)"
    and l: "length tbl = length (rows enrolled_session)"
    and e: "\<forall>j<length (rows enrolled_session). length (tbl ! j) = length (get_columns Enrollment)
              \<and> (\<forall>k<length (get_columns Enrollment).
                    tbl ! j ! k = getattr (rows enrolled_session ! j) (name (get_columns Enrollment ! k)))"
    using get_all_and_table_as_list [of Enrollment enrolled_session] by blast
  have "tbl ! 0 = map (\<lambda>c. getattr enrolled_row (name c)) (get_columns Enrollment)"
    using e r by (intro nth_equalityI) auto
  then have "tbl ! 0 = [VInt 1, VDatetime 100, VDatetime 101, VInt 1, VInt 2, VStr ''A'']"
    using v by simp
  moreover have "length tbl = 1"
    using l r by simp
  ultimately have "tbl = [[VInt 1, VDatetime 100, VDatetime 101, VInt 1, VInt 2, VStr ''A'']]"
    by (cases tbl) auto
  then show ?thesis
    using t get_all_and_table_as_list [of Enrollment enrolled_session] r by simp
qed

section \<open>Inserting and updating rows\<close>

lemma getattr_setattr: "getattr (setattr a k v) k' = (if k' = k then v else getattr a k')"
  by (simp add: getattr_def setattr_def update_conv')

lemma getattr_foldl_setattr:
  "distinct (map fst kw) \<Longrightarrow>
   getattr (foldl (\<lambda>a (k, v). setattr a k v) a0 kw) k
     = (case map_of kw k of Some v \<Rightarrow> v | None \<Rightarrow> getattr a0 k)"
proof (induction kw arbitrary: a0)
  case Nil
  then show ?case by simp
next
  case (Cons x kw)
  obtain k' v' where x: "x = (k', v')" by (cases x)
  have "k' \<notin> fst ` set kw" using Cons.prems x by simp
  then have n: "map_of kw k' = None" by (simp add: map_of_eq_None_iff)
  show ?case
    using Cons.IH [of "setattr a0 k' v'"] Cons.prems x n
    by (auto simp: getattr_setattr split: option.splits)
qed

lemma keys_setattr:
  "k \<in> set (map fst a) \<Longrightarrow> map fst (setattr a k v) = map fst a"
  by (simp add: setattr_def update_keys)

lemma keys_foldl_setattr:
  "fst ` set kw \<subseteq> set (map fst a0) \<Longrightarrow>
   map fst (foldl (\<lambda>a (k, v). setattr a k v) a0 kw) = map fst a0"
proof (induction kw arbitrary: a0)
  case Nil
  then show ?case by simp
next
  case (Cons x kw)
  obtain k v where x: "x = (k, v)" by (cases x)
  have k: "k \<in> set (map fst a0)" using Cons.prems x by auto
  have "map fst (foldl (\<lambda>a (k, v). setattr a k v) (setattr a0 k v) kw) = map fst (setattr a0 k v)"
    using Cons.prems by (intro Cons.IH) (auto simp: keys_setattr [OF k])
  then show ?case
    by (simp add: x keys_setattr [OF k])
qed

lemma next_id_fresh: "next_id st \<notin> set (stored_ids st)"
proof
  assume a: "next_id st \<in> set (stored_ids st)"
  then have ne: "stored_ids st \<noteq> []" by auto
  have "next_id st \<le> Max (set (stored_ids st))"
    using a by (intro Max_ge) auto
  then show False
    using ne by (simp add: next_id_def)
qed

lemma row_id_stored: "r \<in> set (rows st) \<Longrightarrow> row_id r = Some i \<Longrightarrow> i \<in> set (stored_ids st)"
  by (force simp: stored_ids_def List.map_filter_def)

lemma getattr_Cons: "getattr ((k, v) # r) k' = (if k' = k then v else getattr r k')"
  by (simp add: getattr_def)

lemma getattr_not_key: "k \<notin> fst ` set r \<Longrightarrow> getattr r k = VNone"
  by (simp add: getattr_def map_of_eq_None_iff [THEN iffD2])

lemma insert_values_keys: "map fst (fst (insert_values cs a f st)) = map name cs"
  by (induction cs arbitrary: st) (simp_all add: case_prod_beta Let_def)

lemma insert_values_getattr:
  "distinct (map name cs) \<Longrightarrow> c \<in> set cs \<Longrightarrow>
   \<exists>st'. getattr (fst (insert_values cs a f st)) (name c) = fst (insert_value c a f st')"
proof (induction cs arbitrary: st)
  case Nil
  then show ?case by simp
next
  case (Cons x cs)
  show ?case
  proof (cases "c = x")
    case True
    then show ?thesis
      by (auto simp: case_prod_beta Let_def getattr_Cons)
  next
    case False
    then have m: "c \<in> set cs"
      using Cons.prems by auto
    have "name x \<notin> set (map name cs)"
      using Cons.prems(1) by simp
    then have ne: "name c \<noteq> name x"
      using m by (metis imageI set_map)
    obtain st' where "getattr (fst (insert_values cs a f (snd (insert_value x a f st)))) (name c)
        = fst (insert_value c a f st')"
      using Cons.IH [OF _ m] Cons.prems(1) by auto
    then show ?thesis
      using ne by (auto simp: case_prod_beta Let_def getattr_Cons)
  qed
qed

lemma insert_value_given:
  "getattr a (name c) \<noteq> VNone \<Longrightarrow> fst (insert_value c a f st) = getattr a (name c)"
  by (simp add: insert_value_def)

lemma insert_value_key:
  "getattr a (name c) = VNone \<Longrightarrow> primary_key c \<Longrightarrow> fst (insert_value c a f st) = VInt f"
  by (simp add: insert_value_def)

lemma gen_value_not_None: "fst (gen_value g st) \<noteq> VNone"
  by (cases g) (simp add: utcnow_def)

lemma insert_value_not_None:
  "getattr a (name c) \<noteq> VNone \<or> primary_key c \<or> col_default c \<noteq> None \<Longrightarrow>
   fst (insert_value c a f st) \<noteq> VNone"
  by (auto simp: insert_value_def gen_value_not_None split: option.splits)

lemma gen_value_reading:
  "gen_value g st = (VDatetime (clock st (ticks st)), st\<lparr>ticks := Suc (ticks st)\<rparr>)"
  by (cases g) (simp add: utcnow_def)

lemma insert_value_ticks: "ticks st \<le> ticks (snd (insert_value c a f st))"
  by (simp add: insert_value_def gen_value_reading split: option.splits)

lemma insert_values_ticks: "ticks st \<le> ticks (snd (insert_values cs a f st))"
proof (induction cs arbitrary: st)
  case Nil
  then show ?case by simp
next
  case (Cons x cs)
  have "ticks st \<le> ticks (snd (insert_value x a f st))"
    by (rule insert_value_ticks)
  also have "\<dots> \<le> ticks (snd (insert_values cs a f (snd (insert_value x a f st))))"
    by (rule Cons.IH)
  finally show ?case
    by (simp add: case_prod_beta Let_def)
qed

lemma insert_values_reading:
  "distinct (map name cs) \<Longrightarrow> c \<in> set cs \<Longrightarrow> getattr a (name c) = VNone \<Longrightarrow>
   \<not> primary_key c \<Longrightarrow> col_default c \<noteq> None \<Longrightarrow>
   \<exists>j. ticks st \<le> j \<and> j < ticks (snd (insert_values cs a f st))
       \<and> getattr (fst (insert_values cs a f st)) (name c) = VDatetime (clock st j)"
proof (induction cs arbitrary: st)
  case Nil
  then show ?case by simp
next
  case (Cons x cs)
  define st1 where "st1 = snd (insert_value x a f st)"
  show ?case
  proof (cases "c = x")
    case True
    have v: "insert_value x a f st = (VDatetime (clock st (ticks st)), st\<lparr>ticks := Suc (ticks st)\<rparr>)"
      using Cons.prems(3,4,5) True by (auto simp: insert_value_def gen_value_reading)
    have "Suc (ticks st) \<le> ticks (snd (insert_values cs a f (st\<lparr>ticks := Suc (ticks st)\<rparr>)))"
      using insert_values_ticks [of "st\<lparr>ticks := Suc (ticks st)\<rparr>" cs a f] by simp
    then show ?thesis
      using True v by (auto simp: case_prod_beta Let_def getattr_Cons intro!: exI [of _ "ticks st"])
  next
    case False
    then have m: "c \<in> set cs"
      using Cons.prems by auto
    have "name x \<notin> set (map name cs)"
      using Cons.prems(1) by simp
    then have ne: "name c \<noteq> name x"
      using m by (metis imageI set_map)
    obtain j where j: "ticks st1 \<le> j" "j < ticks (snd (insert_values cs a f st1))"
      "getattr (fst (insert_values cs a f st1)) (name c) = VDatetime (clock st1 j)"
      using Cons.IH [OF _ m Cons.prems(3,4,5), of st1] Cons.prems(1) by auto
    have "ticks st \<le> ticks st1" "clock st1 = clock st"
      by (simp_all add: st1_def insert_value_ticks)
    then show ?thesis
      using j ne by (auto simp: case_prod_beta Let_def getattr_Cons st1_def intro!: exI [of _ j])
  qed
qed

lemma table_model_id:
  assumes "table_model cls" "c \<in> set (columns cls)" "name c = ''id''"
  shows "c = TableModel_id"
proof -
  have "TableModel_id \<in> set (columns cls)" "distinct (map name (columns cls))"
    using assms(1) by (simp_all add: table_model_def)
  moreover have "name TableModel_id = ''id''" by (simp add: TableModel_id_def)
  ultimately show ?thesis
    using assms(2,3) by (metis distinct_map inj_onD)
qed

lemma flush_insert_new:
  assumes tm: "table_model cls"
    and a: "attrs obj = a"
    and noid: "getattr a ''id'' = VNone"
    and req: "\<forall>c\<in>set (columns cls). \<not> nullable c \<longrightarrow>
                getattr a (name c) \<noteq> VNone \<or> primary_key c \<or> col_default c \<noteq> None"
  shows "\<exists>r st1. flush_insert cls obj st
                   = (Inr \<lparr>ident = Some (next_id st), attrs = r, expired = [],
                           extra = extra obj\<rparr>, st1)
           \<and> rows st1 = rows st @ [r] \<and> committed st1 = committed st \<and> clock st1 = clock st
           \<and> map fst r = map name (columns cls) \<and> row_id r = Some (next_id st)
           \<and> not_null_ok cls r
           \<and> (\<forall>c\<in>set (columns cls). getattr a (name c) \<noteq> VNone
                 \<longrightarrow> getattr r (name c) = getattr a (name c))
           \<and> ticks st \<le> ticks st1
           \<and> (\<forall>c\<in>set (columns cls).
                 getattr a (name c) = VNone \<and> \<not> primary_key c \<and> col_default c \<noteq> None
                 \<longrightarrow> (\<exists>j. ticks st \<le> j \<and> j < ticks st1
                          \<and> getattr r (name c) = VDatetime (clock st j)))"
proof -
  define r where "r = fst (insert_values (columns cls) a (next_id st) st)"
  define st0 where "st0 = snd (insert_values (columns cls) a (next_id st) st)"
  have d: "distinct (map name (columns cls))" and idc: "TableModel_id \<in> set (columns cls)"
    using tm by (simp_all add: table_model_def)
  have val: "\<exists>st'. getattr r (name c) = fst (insert_value c a (next_id st) st')"
    if "c \<in> set (columns cls)" for c
    unfolding r_def using insert_values_getattr [OF d that] .
  have "getattr r (name TableModel_id) = VInt (next_id st)"
    using val [OF idc] noid
    by (auto simp: insert_value_key TableModel_id_def)
  then have rid: "row_id r = Some (next_id st)"
    by (simp add: row_id_def TableModel_id_def)
  have nn: "not_null_ok cls r"
    unfolding not_null_ok_def list_all_iff
  proof
    fix c assume c: "c \<in> set (columns cls)"
    show "nullable c \<or> getattr r (name c) \<noteq> VNone"
    proof (cases "nullable c")
      case True
      then show ?thesis by simp
    next
      case False
      then have "getattr a (name c) \<noteq> VNone \<or> primary_key c \<or> col_default c \<noteq> None"
        using req c by blast
      then have "fst (insert_value c a (next_id st) st') \<noteq> VNone" for st'
        by (rule insert_value_not_None)
      then show ?thesis
        using val [OF c] by metis
    qed
  qed
  have given: "\<forall>c\<in>set (columns cls). getattr a (name c) \<noteq> VNone
                 \<longrightarrow> getattr r (name c) = getattr a (name c)"
    using val insert_value_given by metis
  have "flush_insert cls obj st
          = (Inr \<lparr>ident = Some (next_id st), attrs = r, expired = [], extra = extra obj\<rparr>,
             st0\<lparr>rows := rows st0 @ [r]\<rparr>)"
    using rid nn next_id_fresh [of st]
    by (simp add: flush_insert_def case_prod_beta a r_def [symmetric] st0_def [symmetric])
  moreover have "rows st0 = rows st" "committed st0 = committed st" "clock st0 = clock st"
    by (simp_all add: st0_def)
  moreover have "map fst r = map name (columns cls)"
    by (simp add: r_def insert_values_keys)
  moreover have "ticks st \<le> ticks st0"
    by (simp add: st0_def insert_values_ticks)
  moreover have "\<forall>c\<in>set (columns cls).
                 getattr a (name c) = VNone \<and> \<not> primary_key c \<and> col_default c \<noteq> None
                 \<longrightarrow> (\<exists>j. ticks st \<le> j \<and> j < ticks st0
                          \<and> getattr r (name c) = VDatetime (clock st j))"
    unfolding r_def st0_def using insert_values_reading [OF d] by blast
  ultimately show ?thesis
    using rid nn given by simp
qed


lemma update_value_frame [simp]:
  "rows (snd (update_value c obj asg old st)) = rows st"
  "committed (snd (update_value c obj asg old st)) = committed st"
  "clock (snd (update_value c obj asg old st)) = clock st"
  by (simp_all add: update_value_def split: option.splits)

lemma update_values_frame [simp]:
  "rows (snd (update_values cs obj asg old st)) = rows st"
  "committed (snd (update_values cs obj asg old st)) = committed st"
  "clock (snd (update_values cs obj asg old st)) = clock st"
  by (induction cs arbitrary: st; simp add: case_prod_beta Let_def)+

lemma update_values_keys: "map fst (fst (update_values cs obj asg old st)) = map name cs"
  by (induction cs arbitrary: st) (simp_all add: case_prod_beta Let_def)

lemma update_values_getattr:
  "distinct (map name cs) \<Longrightarrow> c \<in> set cs \<Longrightarrow>
   \<exists>st'. getattr (fst (update_values cs obj asg old st)) (name c)
           = fst (update_value c obj asg old st')"
proof (induction cs arbitrary: st)
  case Nil
  then show ?case by simp
next
  case (Cons x cs)
  show ?case
  proof (cases "c = x")
    case True
    then show ?thesis
      by (auto simp: case_prod_beta Let_def getattr_Cons)
  next
    case False
    then have m: "c \<in> set cs"
      using Cons.prems by auto
    have "name x \<notin> set (map name cs)"
      using Cons.prems(1) by simp
    then have ne: "name c \<noteq> name x"
      using m by (metis imageI set_map)
    obtain st' where
      "getattr (fst (update_values cs obj asg old (snd (update_value x obj asg old st)))) (name c)
        = fst (update_value c obj asg old st')"
      using Cons.IH [OF _ m] Cons.prems(1) by auto
    then show ?thesis
      using ne by (auto simp: case_prod_beta Let_def getattr_Cons)
  qed
qed

text \<open>
  A column that does not count as changed has in the object the value of the row, as
  long as the attributes that were not assigned are those of the row.
\<close>

lemma not_changed_same:
  assumes "\<not> changed obj asg old c"
    and "name c \<notin> set (keys asg) \<longrightarrow> getattr (attrs obj) (name c) = getattr old (name c)"
  shows "getattr old (name c) = getattr (attrs obj) (name c)"
  using assms by (auto simp: changed_def)

lemma update_value_plain:
  assumes "col_onupdate c = None"
    and "name c \<notin> set (keys asg) \<longrightarrow> getattr (attrs obj) (name c) = getattr old (name c)"
  shows "fst (update_value c obj asg old st) = getattr (attrs obj) (name c)"
  using assms not_changed_same [of obj asg old c] by (simp add: update_value_def)

lemma update_value_not_None:
  assumes "getattr (attrs obj) (name c) \<noteq> VNone"
    and "name c \<notin> set (keys asg) \<longrightarrow> getattr (attrs obj) (name c) = getattr old (name c)"
  shows "fst (update_value c obj asg old st) \<noteq> VNone"
  using assms not_changed_same [of obj asg old c]
  by (auto simp: update_value_def gen_value_not_None split: option.splits)

lemma update_value_ticks: "ticks st \<le> ticks (snd (update_value c obj asg old st))"
  by (simp add: update_value_def gen_value_reading split: option.splits)

lemma update_values_ticks: "ticks st \<le> ticks (snd (update_values cs obj asg old st))"
proof (induction cs arbitrary: st)
  case Nil
  then show ?case by simp
next
  case (Cons x cs)
  have "ticks st \<le> ticks (snd (update_value x obj asg old st))"
    by (rule update_value_ticks)
  also have "\<dots> \<le> ticks (snd (update_values cs obj asg old (snd (update_value x obj asg old st))))"
    by (rule Cons.IH)
  finally show ?case
    by (simp add: case_prod_beta Let_def)
qed

lemma update_values_reading:
  "distinct (map name cs) \<Longrightarrow> c \<in> set cs \<Longrightarrow> \<not> changed obj asg old c \<Longrightarrow>
   col_onupdate c \<noteq> None \<Longrightarrow>
   \<exists>j. ticks st \<le> j \<and> j < ticks (snd (update_values cs obj asg old st))
       \<and> getattr (fst (update_values cs obj asg old st)) (name c) = VDatetime (clock st j)"
proof (induction cs arbitrary: st)
  case Nil
  then show ?case by simp
next
  case (Cons x cs)
  define st1 where "st1 = snd (update_value x obj asg old st)"
  show ?case
  proof (cases "c = x")
    case True
    have v: "update_value x obj asg old st
               = (VDatetime (clock st (ticks st)), st\<lparr>ticks := Suc (ticks st)\<rparr>)"
      using Cons.prems(3,4) True by (auto simp: update_value_def gen_value_reading)
    have "Suc (ticks st)
            \<le> ticks (snd (update_values cs obj asg old (st\<lparr>ticks := Suc (ticks st)\<rparr>)))"
      using update_values_ticks [of "st\<lparr>ticks := Suc (ticks st)\<rparr>" cs obj asg old] by simp
    then show ?thesis
      using True v by (auto simp: case_prod_beta Let_def getattr_Cons intro!: exI [of _ "ticks st"])
  next
    case False
    then have m: "c \<in> set cs"
      using Cons.prems by auto
    have "name x \<notin> set (map name cs)"
      using Cons.prems(1) by simp
    then have ne: "name c \<noteq> name x"
      using m by (metis imageI set_map)
    obtain j where j: "ticks st1 \<le> j" "j < ticks (snd (update_values cs obj asg old st1))"
      "getattr (fst (update_values cs obj asg old st1)) (name c) = VDatetime (clock st1 j)"
      using Cons.IH [OF _ m Cons.prems(3,4), of st1] Cons.prems(1) by auto
    have "ticks st \<le> ticks st1" "clock st1 = clock st"
      by (simp_all add: st1_def update_value_ticks)
    then show ?thesis
      using j ne by (auto simp: case_prod_beta Let_def getattr_Cons st1_def intro!: exI [of _ j])
  qed
qed

lemma alist_eqI:
  "map fst xs = map fst ys \<Longrightarrow> distinct (map fst xs) \<Longrightarrow>
   (\<forall>k\<in>set (map fst xs). getattr xs k = getattr ys k) \<Longrightarrow> xs = ys"
proof (induction xs arbitrary: ys)
  case Nil
  then show ?case by simp
next
  case (Cons x xs)
  obtain y ys' where ys: "ys = y # ys'"
    using Cons.prems(1) by (cases ys) auto
  obtain k v where x: "x = (k, v)" by (cases x)
  obtain v' where y: "y = (k, v')"
    using Cons.prems(1) ys x by (cases y) auto
  have "v = v'"
    using Cons.prems(3) x y ys by (simp add: getattr_Cons)
  moreover have "xs = ys'"
  proof (rule Cons.IH)
    show "map fst xs = map fst ys'" using Cons.prems(1) ys by simp
    show "distinct (map fst xs)" using Cons.prems(2) by simp
    show "\<forall>k'\<in>set (map fst xs). getattr xs k' = getattr ys' k'"
    proof
      fix k' assume k': "k' \<in> set (map fst xs)"
      then have "k' \<noteq> k" using Cons.prems(2) x by auto
      moreover have "getattr (x # xs) k' = getattr ys k'"
        using Cons.prems(3) k' by auto
      ultimately show "getattr xs k' = getattr ys' k'"
        using x y ys by (simp add: getattr_Cons)
    qed
  qed
  ultimately show ?case using x y ys by simp
qed

lemma find_in_rows:
  "\<forall>r\<in>set xs. row_id r \<noteq> Some i \<Longrightarrow> row_id old = Some i \<Longrightarrow>
   find (\<lambda>r. row_id r = Some i) (xs @ old # ys) = Some old"
  by (induction xs) auto

lemma replace_in_rows:
  "\<forall>r\<in>set xs \<union> set ys. row_id r \<noteq> Some i \<Longrightarrow> row_id old = Some i \<Longrightarrow>
   map (\<lambda>x. if row_id x = Some i then new else x) (xs @ old # ys) = xs @ new # ys"
  by (simp add: map_idI)

lemma flush_update_attached:
  assumes tm: "table_model cls"
    and rs: "rows st = xs @ old # ys"
    and others: "\<forall>r\<in>set xs \<union> set ys. row_id r \<noteq> Some i"
    and oid: "row_id old = Some i"
    and io: "ident obj = Some i" and ao: "attrs obj = a"
    and ka: "map fst a = map name (columns cls)"
    and ko: "map fst old = map name (columns cls)"
    and idsame: "getattr a ''id'' = getattr old ''id''"
    and nn: "\<forall>c\<in>set (columns cls). \<not> nullable c \<longrightarrow> getattr a (name c) \<noteq> VNone"
    and nk: "\<forall>c\<in>set (columns cls). name c \<notin> set (keys asg)
               \<longrightarrow> getattr a (name c) = getattr old (name c)"
  shows "\<exists>new e st1. flush_update cls obj asg st
                     = (Inr \<lparr>ident = Some i, attrs = new, expired = e, extra = extra obj\<rparr>, st1)
           \<and> rows st1 = xs @ new # ys \<and> committed st1 = committed st \<and> clock st1 = clock st
           \<and> map fst new = map name (columns cls) \<and> row_id new = Some i
           \<and> not_null_ok cls new
           \<and> (\<forall>c\<in>set (columns cls). col_onupdate c = None
                 \<longrightarrow> getattr new (name c) = getattr a (name c))
           \<and> ticks st \<le> ticks st1
           \<and> (unchanged cls obj asg old \<longrightarrow> new = old \<and> ticks st1 = ticks st)
           \<and> (\<not> unchanged cls obj asg old \<longrightarrow>
                (\<forall>c\<in>set (columns cls).
                   col_onupdate c \<noteq> None \<and> \<not> changed obj asg old c
                   \<longrightarrow> (\<exists>j. ticks st \<le> j \<and> j < ticks st1
                            \<and> getattr new (name c) = VDatetime (clock st j))))"
proof -
  have d: "distinct (map name (columns cls))" and idc: "TableModel_id \<in> set (columns cls)"
    using tm by (simp_all add: table_model_def)
  have f: "find (\<lambda>r. row_id r = Some i) (rows st) = Some old"
    using others oid by (simp add: rs find_in_rows)
  have aid: "row_id a = Some i"
    using oid idsame by (simp add: row_id_def)
  have nk': "name c \<notin> set (keys asg) \<longrightarrow> getattr (attrs obj) (name c) = getattr old (name c)"
    if "c \<in> set (columns cls)" for c
    using nk that by (simp add: ao)
  show ?thesis
  proof (cases "unchanged cls obj asg old")
    case True
    have "a = old"
    proof (rule alist_eqI)
      show "map fst a = map fst old" by (simp add: ka ko)
      show "distinct (map fst a)" by (simp add: ka d)
      show "\<forall>k\<in>set (map fst a). getattr a k = getattr old k"
      proof
        fix k assume "k \<in> set (map fst a)"
        then obtain c where c: "c \<in> set (columns cls)" "name c = k"
          by (auto simp: ka)
        have "\<not> changed obj asg old c"
          using True c(1) by (simp add: unchanged_def list_all_iff)
        then show "getattr a k = getattr old k"
          using not_changed_same [OF _ nk' [OF c(1)]] c(2) ao by simp
      qed
    qed
    moreover have "not_null_ok cls a"
      using nn by (auto simp: not_null_ok_def list_all_iff)
    moreover have "flush_update cls obj asg st = (Inr obj, st)"
      using True f io by (simp add: flush_update_def)
    moreover have "obj = \<lparr>ident = Some i, attrs = a, expired = expired obj, extra = extra obj\<rparr>"
      using io ao by (cases obj) simp
    ultimately show ?thesis
      using rs ka aid True by (metis order_refl)
  next
    case False
    define r where "r = fst (update_values (columns cls) obj asg old st)"
    define st0 where "st0 = snd (update_values (columns cls) obj asg old st)"
    have val: "\<exists>st'. getattr r (name c) = fst (update_value c obj asg old st')"
      if "c \<in> set (columns cls)" for c
      unfolding r_def using update_values_getattr [OF d that] .
    have plain: "getattr r (name c) = getattr a (name c)"
      if "c \<in> set (columns cls)" "col_onupdate c = None" for c
      using val [OF that(1)] update_value_plain [OF that(2) nk' [OF that(1)]] ao by metis
    have "getattr r ''id'' = getattr a ''id''"
      using plain [OF idc] by (simp add: TableModel_id_def)
    then have rid: "row_id r = Some i"
      using aid by (simp add: row_id_def)
    have nnr: "not_null_ok cls r"
      unfolding not_null_ok_def list_all_iff
    proof
      fix c assume c: "c \<in> set (columns cls)"
      show "nullable c \<or> getattr r (name c) \<noteq> VNone"
      proof (cases "nullable c")
        case True
        then show ?thesis by simp
      next
        case False
        then have "getattr (attrs obj) (name c) \<noteq> VNone"
          using nn c ao by blast
        then have "fst (update_value c obj asg old st') \<noteq> VNone" for st'
          using nk' [OF c] by (rule update_value_not_None)
        then show ?thesis
          using val [OF c] by metis
      qed
    qed
    have "\<exists>e. flush_update cls obj asg st
            = (Inr \<lparr>ident = Some i, attrs = r, expired = e, extra = extra obj\<rparr>,
               st0\<lparr>rows := map (\<lambda>x. if row_id x = Some i then r else x) (rows st0)\<rparr>)"
      using False f rid nnr io
      by (simp add: flush_update_def case_prod_beta r_def [symmetric] st0_def [symmetric])
    moreover have "rows st0 = rows st" "committed st0 = committed st" "clock st0 = clock st"
      by (simp_all add: st0_def)
    moreover have "map (\<lambda>x. if row_id x = Some i then r else x) (rows st) = xs @ r # ys"
      unfolding rs using others oid by (rule replace_in_rows)
    moreover have "map fst r = map name (columns cls)"
      by (simp add: r_def update_values_keys)
    moreover have "ticks st \<le> ticks st0"
      by (simp add: st0_def update_values_ticks)
    moreover have "\<forall>c\<in>set (columns cls).
                   col_onupdate c \<noteq> None \<and> \<not> changed obj asg old c
                   \<longrightarrow> (\<exists>j. ticks st \<le> j \<and> j < ticks st0
                            \<and> getattr r (name c) = VDatetime (clock st j))"
      unfolding r_def st0_def using update_values_reading [OF d] by blast
    ultimately show ?thesis
      using rid nnr plain False by auto
  qed
qed

lemma plain_fields_item:
  assumes tm: "table_model cls" and fm: "plain_fields cls kw" and kv: "(k, v) \<in> set kw"
  shows "\<exists>c\<in>set (columns cls). name c = k \<and> \<not> primary_key c \<and> col_onupdate c = None
            \<and> (nullable c \<or> v \<noteq> VNone)"
    and "k \<noteq> ''commit''" and "k \<noteq> ''id''" and "map_of kw k = Some v"
proof -
  have p: "plain_column cls k v" and c: "k \<noteq> ''commit''"
    using fm kv by (auto simp: plain_fields_def list_all_iff)
  show 1: "\<exists>c\<in>set (columns cls). name c = k \<and> \<not> primary_key c \<and> col_onupdate c = None
            \<and> (nullable c \<or> v \<noteq> VNone)"
    using p by (auto simp: plain_column_def list_ex_iff)
  show "k \<noteq> ''commit''" by (rule c)
  show "k \<noteq> ''id''"
  proof
    assume "k = ''id''"
    then obtain c where "c \<in> set (columns cls)" "name c = ''id''" "\<not> primary_key c"
      using 1 by auto
    then have "primary_key TableModel_id" "\<not> primary_key TableModel_id"
      using table_model_id [OF tm, of c] by (simp_all add: TableModel_id_def)
    then show False by simp
  qed
  show "map_of kw k = Some v"
    using fm kv by (simp add: plain_fields_def)
qed

lemma plain_fields_no_key:
  assumes "table_model cls" "plain_fields cls kw"
  shows "map_of kw ''id'' = None" "map_of kw ''commit'' = None"
proof -
  have "''id'' \<notin> fst ` set kw" "''commit'' \<notin> fst ` set kw"
    using plain_fields_item(2,3) [OF assms] by force+
  then show "map_of kw ''id'' = None" "map_of kw ''commit'' = None"
    by (simp_all add: map_of_eq_None_iff)
qed

lemma plain_fields_columns:
  assumes "table_model cls" "plain_fields cls kw"
  shows "fst ` set kw \<subseteq> set (map name (columns cls))"
  using plain_fields_item(1) [OF assms] by force

text \<open>Plain fields are all assigned to column attributes.\<close>

lemma expired_after_Nil [simp]: "expired_after cls [] ks = []"
  by (induction ks) auto

lemma assigned_unloaded_plain:
  "\<forall>k\<in>set ks. \<not> key_column cls k \<Longrightarrow> set (assigned_unloaded cls ex ks) = set ex \<inter> set ks"
  by (induction ks) auto

lemma assign_plain_fields:
  assumes "table_model cls" "plain_fields cls kw"
  shows "assign cls obj kw
           = obj\<lparr>attrs := foldl (\<lambda>a (k, v). setattr a k v) (attrs obj) kw,
                 expired := expired_after cls (expired obj) (map fst kw)\<rparr>"
proof -
  have "\<forall>x\<in>set kw. case x of (k, v) \<Rightarrow> k \<in> set (map name (columns cls))"
    using plain_fields_columns [OF assms] by auto
  then have "filter (\<lambda>(k, v). k \<in> set (map name (columns cls))) kw = kw"
    "filter (\<lambda>(k, v). k \<notin> set (map name (columns cls))) kw = []"
    by (auto simp: filter_empty_conv intro!: filter_True)
  then show ?thesis
    by (simp add: assign_def)
qed

lemma create_record:
  assumes tm: "table_model cls" and fm: "plain_fields cls kw"
    and sr: "supplies_required cls kw"
  shows "\<exists>r st1. create cls True kw st
                   = (Inr \<lparr>ident = Some (next_id st), attrs = r,
                           expired = map name (columns cls), extra = []\<rparr>, st1)
           \<and> rows st1 = rows st @ [r] \<and> committed st1 = rows st1 \<and> clock st1 = clock st
           \<and> map fst r = map name (columns cls) \<and> row_id r = Some (next_id st)
           \<and> not_null_ok cls r
           \<and> (\<forall>k v. (k, v) \<in> set kw \<and> v \<noteq> VNone \<longrightarrow> getattr r k = v)
           \<and> ticks st \<le> ticks st1
           \<and> (\<forall>c\<in>set (columns cls).
                 map_of kw (name c) = None \<and> \<not> primary_key c \<and> col_default c \<noteq> None
                 \<longrightarrow> (\<exists>j. ticks st \<le> j \<and> j < ticks st1
                          \<and> getattr r (name c) = VDatetime (clock st j)))"
proof -
  define a where "a = foldl (\<lambda>a (k, v). setattr a k v) [] kw"
  define obj where "obj = \<lparr>ident = None, attrs = a, expired = [], extra = []\<rparr>"
  have dk: "distinct (map fst kw)"
    using fm by (simp add: plain_fields_def)
  have ga: "getattr a k = (case map_of kw k of Some v \<Rightarrow> v | None \<Rightarrow> VNone)" for k
  proof -
    have "getattr [] k = VNone" by (simp add: getattr_def)
    then show ?thesis
      unfolding a_def using getattr_foldl_setattr [OF dk, of "[]" k]
      by (simp split: option.splits)
  qed
  have ni: "new_instance cls kw = Inr obj"
    using plain_fields_columns [OF tm fm]
    by (auto simp: new_instance_def assign_plain_fields [OF tm fm] obj_def a_def list_all_iff)
  have bm: "bound_method obj ''save''"
    by (simp add: bound_method_def obj_def)
  have noid: "getattr a ''id'' = VNone"
    by (simp add: ga plain_fields_no_key(1) [OF tm fm])
  have req: "\<forall>c\<in>set (columns cls). \<not> nullable c \<longrightarrow>
                getattr a (name c) \<noteq> VNone \<or> primary_key c \<or> col_default c \<noteq> None"
    using sr by (auto simp: supplies_required_def list_all_iff ga split: option.splits)
  have ao: "attrs obj = a" "ident obj = None" "extra obj = []"
    by (simp_all add: obj_def)
  obtain r st1 where f: "flush_insert cls obj st
                   = (Inr \<lparr>ident = Some (next_id st), attrs = r, expired = [], extra = []\<rparr>, st1)"
    and p: "rows st1 = rows st @ [r]" "clock st1 = clock st"
      "map fst r = map name (columns cls)" "row_id r = Some (next_id st)" "not_null_ok cls r"
      "ticks st \<le> ticks st1"
    and g: "\<forall>c\<in>set (columns cls). getattr a (name c) \<noteq> VNone
                 \<longrightarrow> getattr r (name c) = getattr a (name c)"
    and rd: "\<forall>c\<in>set (columns cls).
                 getattr a (name c) = VNone \<and> \<not> primary_key c \<and> col_default c \<noteq> None
                 \<longrightarrow> (\<exists>j. ticks st \<le> j \<and> j < ticks st1
                          \<and> getattr r (name c) = VDatetime (clock st j))"
    using flush_insert_new [OF tm ao(1) noid req, of st] unfolding ao(3) by blast
  have c: "create cls True kw st
             = (Inr \<lparr>ident = Some (next_id st), attrs = r, expired = map name (columns cls),
                     extra = []\<rparr>, st1\<lparr>committed := rows st1\<rparr>)"
    by (simp add: create_def ni bm save_def session_add_def ao f commit_def session_commit_def
        bound_method_def expire_all_def)
  have v: "getattr r k = v" if kv: "(k, v) \<in> set kw" and nz: "v \<noteq> VNone" for k v
  proof -
    obtain c where c: "c \<in> set (columns cls)" "name c = k"
      using plain_fields_item(1) [OF tm fm kv] by auto
    have "getattr a k = v"
      by (simp add: ga plain_fields_item(4) [OF tm fm kv])
    then show ?thesis
      using g c nz by auto
  qed
  have rd': "\<forall>c\<in>set (columns cls).
                 map_of kw (name c) = None \<and> \<not> primary_key c \<and> col_default c \<noteq> None
                 \<longrightarrow> (\<exists>j. ticks st \<le> j \<and> j < ticks (st1\<lparr>committed := rows st1\<rparr>)
                          \<and> getattr r (name c) = VDatetime (clock st j))"
    using rd by (simp add: ga)
  show ?thesis
    using c p v rd' by simp
qed

text \<open>
  A committed update with plain fields of an object that is attached to the row \<open>old\<close>
  and has no attribute of its own. It emits an UPDATE unless every field was loaded
  and already has the given value.
\<close>

lemma update_record:
  assumes tm: "table_model cls" and fm: "plain_fields cls kw"
    and rs: "rows st = xs @ old # ys"
    and others: "\<forall>r\<in>set xs \<union> set ys. row_id r \<noteq> Some i"
    and oid: "row_id old = Some i"
    and ko: "map fst old = map name (columns cls)"
    and nno: "not_null_ok cls old"
    and io: "ident obj = Some i" and ao: "attrs obj = old" and eo: "extra obj = []"
  shows "\<exists>new st1. update cls obj True kw st
                     = (Inr \<lparr>ident = Some i, attrs = new, expired = map name (columns cls),
                             extra = []\<rparr>, st1)
           \<and> rows st1 = xs @ new # ys \<and> committed st1 = rows st1 \<and> clock st1 = clock st
           \<and> map fst new = map name (columns cls) \<and> row_id new = Some i
           \<and> not_null_ok cls new \<and> matches kw new
           \<and> (\<forall>c\<in>set (columns cls). col_onupdate c = None \<and> name c \<notin> fst ` set kw
                 \<longrightarrow> getattr new (name c) = getattr old (name c))
           \<and> ticks st \<le> ticks st1
           \<and> ((\<forall>(k, v)\<in>set kw. k \<notin> set (expired obj) \<and> getattr old k = v)
                \<longrightarrow> new = old \<and> ticks st1 = ticks st)
           \<and> (\<not> (\<forall>(k, v)\<in>set kw. k \<notin> set (expired obj) \<and> getattr old k = v) \<longrightarrow>
                (\<forall>c\<in>set (columns cls). col_onupdate c \<noteq> None
                   \<longrightarrow> (\<exists>j. ticks st \<le> j \<and> j < ticks st1
                            \<and> getattr new (name c) = VDatetime (clock st j))))"
proof -
  define a where "a = foldl (\<lambda>a (k, v). setattr a k v) old kw"
  define obj1 where "obj1 = assign cls obj kw"
  define asg where
    "asg = \<lparr>keys = map fst kw, unloaded = assigned_unloaded cls (expired obj) (map fst kw)\<rparr>"
  have d: "distinct (map name (columns cls))"
    using tm by (simp add: table_model_def)
  have dk: "distinct (map fst kw)"
    using fm by (simp add: plain_fields_def)
  have o1: "ident obj1 = Some i" "attrs obj1 = a" "extra obj1 = []"
    by (simp_all add: obj1_def assign_plain_fields [OF tm fm] io ao eo a_def)
  have ks: "keys asg = map fst kw"
    by (simp add: asg_def)
  have nkc: "\<not> key_column cls k" if kk: "k \<in> fst ` set kw" for k
  proof
    assume "key_column cls k"
    then obtain c where c: "c \<in> set (columns cls)" "name c = k" "primary_key c"
      by (auto simp: key_column_def list_ex_iff)
    obtain v where "(k, v) \<in> set kw"
      using kk by force
    then obtain c' where c': "c' \<in> set (columns cls)" "name c' = k" "\<not> primary_key c'"
      using plain_fields_item(1) [OF tm fm] by blast
    have "c' = c"
      using d c(1,2) c'(1,2) by (metis distinct_map inj_onD)
    then show False
      using c(3) c'(3) by simp
  qed
  have ul: "set (unloaded asg) = set (expired obj) \<inter> fst ` set kw"
    using assigned_unloaded_plain [of "map fst kw" cls "expired obj"] nkc
    by (simp add: asg_def)
  have ga: "getattr a k = (case map_of kw k of Some v \<Rightarrow> v | None \<Rightarrow> getattr old k)" for k
    unfolding a_def by (rule getattr_foldl_setattr [OF dk])
  have ka: "map fst a = map name (columns cls)"
    unfolding a_def using keys_foldl_setattr [of kw old] plain_fields_columns [OF tm fm]
    by (simp add: ko)
  have idsame: "getattr a ''id'' = getattr old ''id''"
    by (simp add: ga plain_fields_no_key(1) [OF tm fm])
  have same: "c' = c" if "c \<in> set (columns cls)" "c' \<in> set (columns cls)" "name c' = name c"
    for c c'
    using d that by (metis distinct_map inj_onD)
  have nokey: "map_of kw k = None" if "k \<notin> set (keys asg)" for k
    using that by (simp add: ks map_of_eq_None_iff)
  have nk: "\<forall>c\<in>set (columns cls). name c \<notin> set (keys asg)
               \<longrightarrow> getattr a (name c) = getattr old (name c)"
    by (simp add: ga nokey)
  have nn: "\<forall>c\<in>set (columns cls). \<not> nullable c \<longrightarrow> getattr a (name c) \<noteq> VNone"
  proof (intro ballI impI)
    fix c assume c: "c \<in> set (columns cls)" and n: "\<not> nullable c"
    show "getattr a (name c) \<noteq> VNone"
    proof (cases "map_of kw (name c)")
      case None
      then show ?thesis
        using nno c n by (auto simp: ga not_null_ok_def list_all_iff)
    next
      case (Some v)
      then have "(name c, v) \<in> set kw" by (rule map_of_SomeD)
      then obtain c' where c': "c' \<in> set (columns cls)" "name c' = name c"
        "nullable c' \<or> v \<noteq> VNone"
        using plain_fields_item(1) [OF tm fm] by blast
      have "c' = c"
        using same c c'(1,2) by blast
      then show ?thesis
        using c'(3) n Some by (simp add: ga)
    qed
  qed
  have auto_col: "\<not> changed obj1 asg old c"
    if c: "c \<in> set (columns cls)" and o: "col_onupdate c \<noteq> None" for c
  proof -
    have "name c \<notin> set (keys asg)"
    proof
      assume "name c \<in> set (keys asg)"
      then obtain v where "(name c, v) \<in> set kw"
        by (auto simp: ks)
      then obtain c' where c': "c' \<in> set (columns cls)" "name c' = name c"
        "col_onupdate c' = None"
        using plain_fields_item(1) [OF tm fm] by blast
      have "c' = c"
        using same c c'(1,2) by blast
      then show False
        using c'(3) o by simp
    qed
    then show ?thesis
      by (simp add: changed_def)
  qed
  have un: "unchanged cls obj1 asg old
              \<longleftrightarrow> (\<forall>(k, v)\<in>set kw. k \<notin> set (expired obj) \<and> getattr old k = v)"
  proof
    assume u: "unchanged cls obj1 asg old"
    show "\<forall>(k, v)\<in>set kw. k \<notin> set (expired obj) \<and> getattr old k = v"
    proof
      fix x assume x: "x \<in> set kw"
      obtain k v where kv: "x = (k, v)" by (cases x)
      obtain c where c: "c \<in> set (columns cls)" "name c = k"
        using plain_fields_item(1) [OF tm fm] x kv by blast
      have "getattr a k = v"
        using plain_fields_item(4) [OF tm fm] x kv by (simp add: ga)
      moreover have "k \<in> set (keys asg)" "k \<in> fst ` set kw"
        using x kv by (force simp: ks)+
      moreover have "\<not> changed obj1 asg old c"
        using u c by (auto simp: unchanged_def list_all_iff)
      ultimately show "case x of (k, v) \<Rightarrow> k \<notin> set (expired obj) \<and> getattr old k = v"
        using kv c(2) by (auto simp: changed_def o1 ul)
    qed
  next
    assume m: "\<forall>(k, v)\<in>set kw. k \<notin> set (expired obj) \<and> getattr old k = v"
    show "unchanged cls obj1 asg old"
      unfolding unchanged_def list_all_iff
    proof
      fix c assume "c \<in> set (columns cls)"
      show "\<not> changed obj1 asg old c"
      proof (cases "map_of kw (name c)")
        case None
        then have "name c \<notin> set (keys asg)"
          by (simp add: ks map_of_eq_None_iff)
        then show ?thesis by (simp add: changed_def)
      next
        case (Some v)
        then have "(name c, v) \<in> set kw" by (rule map_of_SomeD)
        then have "name c \<notin> set (expired obj) \<and> getattr old (name c) = v"
          using m by auto
        then show ?thesis
          using Some by (simp add: changed_def o1 ga ul)
      qed
    qed
  qed
  obtain new e st1 where f: "flush_update cls obj1 asg st
                     = (Inr \<lparr>ident = Some i, attrs = new, expired = e, extra = []\<rparr>, st1)"
    and p: "rows st1 = xs @ new # ys" "clock st1 = clock st"
      "map fst new = map name (columns cls)" "row_id new = Some i" "not_null_ok cls new"
      "ticks st \<le> ticks st1"
    and g: "\<forall>c\<in>set (columns cls). col_onupdate c = None
                 \<longrightarrow> getattr new (name c) = getattr a (name c)"
    and same_row: "unchanged cls obj1 asg old \<longrightarrow> new = old \<and> ticks st1 = ticks st"
    and rd: "\<not> unchanged cls obj1 asg old \<longrightarrow>
                (\<forall>c\<in>set (columns cls).
                   col_onupdate c \<noteq> None \<and> \<not> changed obj1 asg old c
                   \<longrightarrow> (\<exists>j. ticks st \<le> j \<and> j < ticks st1
                            \<and> getattr new (name c) = VDatetime (clock st j)))"
    using flush_update_attached [OF tm rs others oid o1(1,2) ka ko idsame nn nk]
    unfolding o1(3) by blast
  have u: "update cls obj True kw st
             = (Inr \<lparr>ident = Some i, attrs = new, expired = map name (columns cls), extra = []\<rparr>,
                st1\<lparr>committed := rows st1\<rparr>)"
    by (simp add: update_def Let_def obj1_def [symmetric] asg_def [symmetric] f save_def
        session_add_def commit_def session_commit_def bound_method_def expire_all_def)
  have m: "matches kw new"
    unfolding matches_def list_all_iff
  proof (intro ballI)
    fix x assume x: "x \<in> set kw"
    obtain k v where kv: "x = (k, v)" by (cases x)
    obtain c where c: "c \<in> set (columns cls)" "name c = k" "col_onupdate c = None"
      using plain_fields_item(1) [OF tm fm] x kv by blast
    have "getattr a k = v"
      using plain_fields_item(4) [OF tm fm] x kv by (simp add: ga)
    then show "case x of (k, v) \<Rightarrow> getattr new k = v"
      using g c kv by auto
  qed
  have keep: "\<forall>c\<in>set (columns cls). col_onupdate c = None \<and> name c \<notin> fst ` set kw
                 \<longrightarrow> getattr new (name c) = getattr old (name c)"
    using g by (auto simp: ga map_of_eq_None_iff [THEN iffD2])
  have rd': "\<not> (\<forall>(k, v)\<in>set kw. k \<notin> set (expired obj) \<and> getattr old k = v) \<longrightarrow>
                (\<forall>c\<in>set (columns cls). col_onupdate c \<noteq> None
                   \<longrightarrow> (\<exists>j. ticks st \<le> j \<and> j < ticks (st1\<lparr>committed := rows st1\<rparr>)
                            \<and> getattr new (name c) = VDatetime (clock st j)))"
    using rd un auto_col by simp
  have same_row': "(\<forall>(k, v)\<in>set kw. k \<notin> set (expired obj) \<and> getattr old k = v)
                     \<longrightarrow> new = old \<and> ticks (st1\<lparr>committed := rows st1\<rparr>) = ticks st"
    using same_row un by simp
  show ?thesis
    using u p m keep rd' same_row' by simp
qed

section \<open>The association upsert\<close>







lemma load_simps [simp]:
  "ident (load r) = row_id r" "extra (load r) = []" "expired (load r) = []"
  by (simp_all add: load_def)








section \<open>Timestamps\<close>

lemma table_model_timestamps:
  assumes "table_model cls"
  shows "TableModel_created_at \<in> set (columns cls)" "TableModel_updated_at \<in> set (columns cls)"
    "name TableModel_created_at = ''created_at''" "name TableModel_updated_at = ''updated_at''"
    "col_onupdate TableModel_created_at = None" "col_onupdate TableModel_updated_at \<noteq> None"
    "\<not> primary_key TableModel_created_at" "\<not> primary_key TableModel_updated_at"
    "col_default TableModel_created_at \<noteq> None" "col_default TableModel_updated_at \<noteq> None"
  using assms
  by (simp_all add: table_model_def TableModel_created_at_def TableModel_updated_at_def
      new_timestamp_column_def)

lemma plain_fields_no_updated_at:
  assumes tm: "table_model cls" and fm: "plain_fields cls kw"
  shows "map_of kw ''updated_at'' = None"
proof (cases "map_of kw ''updated_at''")
  case None
  then show ?thesis .
next
  case (Some v)
  then have "(''updated_at'', v) \<in> set kw" by (rule map_of_SomeD)
  then obtain c where c: "c \<in> set (columns cls)" "name c = ''updated_at''" "col_onupdate c = None"
    using plain_fields_item(1) [OF tm fm] by blast
  have "distinct (map name (columns cls))"
    using tm by (simp add: table_model_def)
  then have "c = TableModel_updated_at"
    using c(1,2) table_model_timestamps(2,4) [OF tm] by (metis distinct_map inj_onD)
  then show ?thesis
    using c(3) table_model_timestamps(6) [OF tm] by simp
qed

lemma update_step_timestamps:
  assumes tm: "table_model cls" and kc: "keeps_created_at cls kw"
    and rs: "rows st = xs @ row # ys"
    and others: "\<forall>r\<in>set xs \<union> set ys. row_id r \<noteq> Some i"
    and oid: "row_id row = Some i"
    and ko: "map fst row = map name (columns cls)"
    and nno: "not_null_ok cls row"
    and up: "getattr row ''updated_at'' = VDatetime (clock st j)" and j: "j < ticks st"
  shows "\<exists>row' st' j'.
             update cls \<lparr>ident = Some i, attrs = row, expired = map name (columns cls),
                         extra = []\<rparr> True kw st
               = (Inr \<lparr>ident = Some i, attrs = row', expired = map name (columns cls),
                       extra = []\<rparr>, st')
           \<and> rows st' = xs @ row' # ys \<and> row_id row' = Some i
           \<and> map fst row' = map name (columns cls) \<and> not_null_ok cls row'
           \<and> clock st' = clock st
           \<and> getattr row' ''created_at'' = getattr row ''created_at''
           \<and> getattr row' ''updated_at'' = VDatetime (clock st j') \<and> j \<le> j' \<and> j' < ticks st'
           \<and> (kw = [] \<longrightarrow> j' = j)
           \<and> (kw \<noteq> [] \<longrightarrow> ticks st \<le> j')"
proof -
  define obj where
    "obj = \<lparr>ident = Some i, attrs = row, expired = map name (columns cls), extra = []\<rparr>"
  have o: "ident obj = Some i" "attrs obj = row" "extra obj = []"
    "expired obj = map name (columns cls)"
    by (simp_all add: obj_def)
  have fm: "plain_fields cls kw" and nc: "map_of kw ''created_at'' = None"
    using kc by (simp_all add: keeps_created_at_def)
  have e: "(\<forall>(k, v)\<in>set kw. k \<notin> set (expired obj) \<and> getattr row k = v) \<longleftrightarrow> kw = []"
  proof
    assume a: "\<forall>(k, v)\<in>set kw. k \<notin> set (expired obj) \<and> getattr row k = v"
    show "kw = []"
    proof (cases kw)
      case Nil
      then show ?thesis .
    next
      case (Cons x kw')
      obtain k v where x: "x = (k, v)" by (cases x)
      have "(k, v) \<in> set kw" using Cons x by simp
      then have "k \<in> set (map name (columns cls))" "k \<notin> set (expired obj)"
        using plain_fields_columns [OF tm fm] a by force+
      then show ?thesis by (simp add: o)
    qed
  qed simp
  obtain new st1 where u: "update cls obj True kw st
                     = (Inr \<lparr>ident = Some i, attrs = new, expired = map name (columns cls),
                             extra = []\<rparr>, st1)"
    and p: "rows st1 = xs @ new # ys" "clock st1 = clock st"
      "map fst new = map name (columns cls)" "row_id new = Some i" "not_null_ok cls new"
      "ticks st \<le> ticks st1"
    and keep: "\<forall>c\<in>set (columns cls). col_onupdate c = None \<and> name c \<notin> fst ` set kw
                 \<longrightarrow> getattr new (name c) = getattr row (name c)"
    and same_row: "kw = [] \<longrightarrow> new = row"
    and rd: "kw \<noteq> [] \<longrightarrow>
                (\<forall>c\<in>set (columns cls). col_onupdate c \<noteq> None
                   \<longrightarrow> (\<exists>j. ticks st \<le> j \<and> j < ticks st1
                            \<and> getattr new (name c) = VDatetime (clock st j)))"
    using update_record [OF tm fm rs others oid ko nno o(1,2,3)] unfolding e by blast
  have "''created_at'' \<notin> fst ` set kw"
    using nc by (simp add: map_of_eq_None_iff)
  then have ca: "getattr new ''created_at'' = getattr row ''created_at''"
    using keep table_model_timestamps(1,3,5) [OF tm] by metis
  have "\<exists>j'. getattr new ''updated_at'' = VDatetime (clock st j') \<and> j \<le> j' \<and> j' < ticks st1
          \<and> (kw = [] \<longrightarrow> j' = j) \<and> (kw \<noteq> [] \<longrightarrow> ticks st \<le> j')"
  proof (cases "kw = []")
    case True
    then show ?thesis
      using same_row up j p(6) by (intro exI [of _ j]) auto
  next
    case False
    then obtain j1 where "ticks st \<le> j1" "j1 < ticks st1"
      "getattr new ''updated_at'' = VDatetime (clock st j1)"
      using rd table_model_timestamps(2,4,6) [OF tm] by metis
    then show ?thesis
      using False j by (intro exI [of _ j1]) auto
  qed
  then show ?thesis
    using u p ca unfolding obj_def by auto
qed

lemma update_all_timestamps:
  assumes tm: "table_model cls"
  shows "list_all (keeps_created_at cls) kws \<Longrightarrow> rows st = xs @ row # ys \<Longrightarrow>
    \<forall>r\<in>set xs \<union> set ys. row_id r \<noteq> Some i \<Longrightarrow> row_id row = Some i \<Longrightarrow>
    map fst row = map name (columns cls) \<Longrightarrow> not_null_ok cls row \<Longrightarrow>
    getattr row ''updated_at'' = VDatetime (clock st j) \<Longrightarrow> j < ticks st \<Longrightarrow>
    \<exists>row' st' j'.
         update_all cls \<lparr>ident = Some i, attrs = row, expired = map name (columns cls),
                         extra = []\<rparr> kws st
           = (Inr \<lparr>ident = Some i, attrs = row', expired = map name (columns cls),
                   extra = []\<rparr>, st')
       \<and> rows st' = xs @ row' # ys \<and> row_id row' = Some i
       \<and> map fst row' = map name (columns cls) \<and> not_null_ok cls row'
       \<and> clock st' = clock st
       \<and> getattr row' ''created_at'' = getattr row ''created_at''
       \<and> getattr row' ''updated_at'' = VDatetime (clock st j') \<and> j \<le> j' \<and> j' < ticks st'"
proof (induction kws arbitrary: row st j)
  case Nil
  then show ?case by auto
next
  case (Cons kw kws)
  have kc: "keeps_created_at cls kw" and rest: "list_all (keeps_created_at cls) kws"
    using Cons.prems(1) by simp_all
  obtain row1 st1 j1 where
    u: "update cls \<lparr>ident = Some i, attrs = row, expired = map name (columns cls),
                     extra = []\<rparr> True kw st
          = (Inr \<lparr>ident = Some i, attrs = row1, expired = map name (columns cls),
                  extra = []\<rparr>, st1)"
    and p: "rows st1 = xs @ row1 # ys" "row_id row1 = Some i"
      "map fst row1 = map name (columns cls)" "not_null_ok cls row1"
    and c: "clock st1 = clock st"
    and t: "getattr row1 ''created_at'' = getattr row ''created_at''"
      "getattr row1 ''updated_at'' = VDatetime (clock st j1)" "j \<le> j1" "j1 < ticks st1"
    using update_step_timestamps [OF tm kc Cons.prems(2-8)] by blast
  have t': "getattr row1 ''updated_at'' = VDatetime (clock st1 j1)"
    using t(2) c by simp
  obtain row' st' j' where
    a: "update_all cls \<lparr>ident = Some i, attrs = row1, expired = map name (columns cls),
                         extra = []\<rparr> kws st1
          = (Inr \<lparr>ident = Some i, attrs = row', expired = map name (columns cls),
                  extra = []\<rparr>, st')"
    and q: "rows st' = xs @ row' # ys" "row_id row' = Some i"
      "map fst row' = map name (columns cls)" "not_null_ok cls row'" "clock st' = clock st1"
      "getattr row' ''created_at'' = getattr row1 ''created_at''"
      "getattr row' ''updated_at'' = VDatetime (clock st1 j')" "j1 \<le> j'" "j' < ticks st'"
    using Cons.IH [OF rest p(1) Cons.prems(3) p(2,3,4) t' t(4)] by blast
  have "update_all cls \<lparr>ident = Some i, attrs = row, expired = map name (columns cls),
                         extra = []\<rparr> (kw # kws) st
          = (Inr \<lparr>ident = Some i, attrs = row', expired = map name (columns cls),
                  extra = []\<rparr>, st')"
    by (simp add: u a)
  moreover have "j \<le> j'"
    using t(3) q(8) by simp
  ultimately show ?case
    using q c t(1) by auto
qed

text \<open>
  Claim C7, amended. Let a timestamped entity be created from plain fields (so the
  creation does not supply \<^verbatim>\<open>updated_at\<close>) and then updated any number of times, every
  update committed, applied to the object the step before returned, and its fields
  plain and without \<^verbatim>\<open>created_at\<close> (plain fields never name \<^verbatim>\<open>updated_at\<close>). Then
  \<^verbatim>\<open>created_at\<close> keeps through all updates the value it has after the creation. At
  the creation \<^verbatim>\<open>updated_at\<close> is a reading of the clock taken during the insert, and
  so is \<^verbatim>\<open>created_at\<close> when the fields do not supply it: each column calls the clock
  itself. A committed update that assigns at least one field sets \<^verbatim>\<open>updated_at\<close> to a
  reading of the clock taken during that update, whether or not the value of the field
  differs from the stored one; an update with no field leaves \<^verbatim>\<open>updated_at\<close> as it
  is. With a clock that never runs backwards, \<^verbatim>\<open>updated_at\<close> never decreases: not from
  the creation to any later state, and not from one update to the next.
\<close>

theorem timestamps_over_lifetime:
  assumes tm: "table_model cls"
    and fm: "plain_fields cls kw" and sr: "supplies_required cls kw"
    and ups: "list_all (keeps_created_at cls) kws" and up: "keeps_created_at cls kw'"
    and mono: "mono (clock st)"
  shows "\<exists>r0 st0 r1 st1 r2 st2 u0 u1 u2.
           create cls True kw st = (Inr r0, st0)
         \<and> update_all cls r0 kws st0 = (Inr r1, st1)
         \<and> update cls r1 True kw' st1 = (Inr r2, st2)
         \<and> getattr (attrs r1) ''created_at'' = getattr (attrs r0) ''created_at''
         \<and> getattr (attrs r2) ''created_at'' = getattr (attrs r0) ''created_at''
         \<and> getattr (attrs r0) ''updated_at'' = VDatetime u0
         \<and> getattr (attrs r1) ''updated_at'' = VDatetime u1
         \<and> getattr (attrs r2) ''updated_at'' = VDatetime u2
         \<and> u0 \<le> u1 \<and> u1 \<le> u2
         \<and> (\<exists>j. ticks st \<le> j \<and> j < ticks st0 \<and> u0 = clock st j)
         \<and> (map_of kw ''created_at'' = None \<longrightarrow>
              (\<exists>j. ticks st \<le> j \<and> j < ticks st0
                 \<and> getattr (attrs r0) ''created_at'' = VDatetime (clock st j)))
         \<and> (kw' \<noteq> [] \<longrightarrow> (\<exists>j. ticks st1 \<le> j \<and> j < ticks st2 \<and> u2 = clock st j))
         \<and> (kw' = [] \<longrightarrow> u2 = u1)"
proof -
  define i where "i = next_id st"
  define ex where "ex = map name (columns cls)"
  obtain r st0 where
    c: "create cls True kw st = (Inr \<lparr>ident = Some i, attrs = r, expired = ex, extra = []\<rparr>, st0)"
    and p0: "rows st0 = rows st @ [r]" "clock st0 = clock st"
      "map fst r = map name (columns cls)" "row_id r = Some i" "not_null_ok cls r"
    and rd: "\<forall>c\<in>set (columns cls).
                 map_of kw (name c) = None \<and> \<not> primary_key c \<and> col_default c \<noteq> None
                 \<longrightarrow> (\<exists>j. ticks st \<le> j \<and> j < ticks st0
                          \<and> getattr r (name c) = VDatetime (clock st j))"
    unfolding i_def ex_def using create_record [OF tm fm sr, of st] by blast
  obtain j0 where j0: "ticks st \<le> j0" "j0 < ticks st0"
    "getattr r ''updated_at'' = VDatetime (clock st j0)"
    using rd plain_fields_no_updated_at [OF tm fm] table_model_timestamps(2,4,8,10) [OF tm]
    by metis
  have cr: "map_of kw ''created_at'' = None \<longrightarrow>
              (\<exists>j. ticks st \<le> j \<and> j < ticks st0
                 \<and> getattr r ''created_at'' = VDatetime (clock st j))"
    using rd table_model_timestamps(1,3,7,9) [OF tm] by metis
  have others: "\<forall>x\<in>set (rows st) \<union> set []. row_id x \<noteq> Some i"
    unfolding i_def using row_id_stored [of _ st "next_id st"] next_id_fresh [of st] by auto
  have rs: "rows st0 = rows st @ r # []"
    by (simp add: p0(1))
  have up0: "getattr r ''updated_at'' = VDatetime (clock st0 j0)"
    using j0(3) p0(2) by simp
  obtain row1 st1 j1 where
    a: "update_all cls \<lparr>ident = Some i, attrs = r, expired = ex, extra = []\<rparr> kws st0
          = (Inr \<lparr>ident = Some i, attrs = row1, expired = ex, extra = []\<rparr>, st1)"
    and p1: "rows st1 = rows st @ row1 # []" "row_id row1 = Some i"
      "map fst row1 = map name (columns cls)" "not_null_ok cls row1" "clock st1 = clock st0"
    and t1: "getattr row1 ''created_at'' = getattr r ''created_at''"
      "getattr row1 ''updated_at'' = VDatetime (clock st0 j1)" "j0 \<le> j1" "j1 < ticks st1"
    unfolding ex_def
    using update_all_timestamps [OF tm ups rs others p0(4,3,5) up0 j0(2)] by blast
  have up1: "getattr row1 ''updated_at'' = VDatetime (clock st1 j1)"
    using t1(2) p1(5) by simp
  obtain row2 st2 j2 where
    u: "update cls \<lparr>ident = Some i, attrs = row1, expired = ex, extra = []\<rparr> True kw' st1
          = (Inr \<lparr>ident = Some i, attrs = row2, expired = ex, extra = []\<rparr>, st2)"
    and t2: "getattr row2 ''created_at'' = getattr row1 ''created_at''"
      "getattr row2 ''updated_at'' = VDatetime (clock st1 j2)" "j1 \<le> j2" "j2 < ticks st2"
      "kw' = [] \<longrightarrow> j2 = j1" "kw' \<noteq> [] \<longrightarrow> ticks st1 \<le> j2"
    unfolding ex_def
    using update_step_timestamps [OF tm up p1(1) others p1(2,3,4) up1 t1(4)] by blast
  have ck: "clock st1 = clock st"
    using p1(5) p0(2) by simp
  have le: "clock st j0 \<le> clock st j1" "clock st j1 \<le> clock st j2"
    using mono t1(3) t2(3) by (auto dest: monoD)
  have fresh: "kw' \<noteq> [] \<longrightarrow>
              (\<exists>j. ticks st1 \<le> j \<and> j < ticks st2 \<and> clock st j2 = clock st j)"
    using t2(4,6) by auto
  have same: "kw' = [] \<longrightarrow> clock st j2 = clock st j1"
    using t2(5) by simp
  have first: "\<exists>j. ticks st \<le> j \<and> j < ticks st0 \<and> clock st j0 = clock st j"
    using j0(1,2) by auto
  show ?thesis
    apply (rule exI [of _ "\<lparr>ident = Some i, attrs = r, expired = ex, extra = []\<rparr>"])
    apply (rule exI [of _ st0])
    apply (rule exI [of _ "\<lparr>ident = Some i, attrs = row1, expired = ex, extra = []\<rparr>"])
    apply (rule exI [of _ st1])
    apply (rule exI [of _ "\<lparr>ident = Some i, attrs = row2, expired = ex, extra = []\<rparr>"])
    apply (rule exI [of _ st2])
    apply (rule exI [of _ "clock st j0"], rule exI [of _ "clock st j1"])
    apply (rule exI [of _ "clock st j2"])
    using c a u t1(1) t2(1) j0(3) t1(2) t2(2) le first cr same fresh
    by (simp add: ck p0(2))
qed

text \<open>
  The example enrollment, created with the grade A, updated to B and then again with
  the fields it already has: the last update, too, sets \<^verbatim>\<open>updated_at\<close> to a new reading
  of the clock.
\<close>

theorem timestamps_over_lifetime_witness:
  "table_model Enrollment \<and> plain_fields Enrollment grade_A
   \<and> supplies_required Enrollment grade_A
   \<and> list_all (keeps_created_at Enrollment) [grade_B] \<and> keeps_created_at Enrollment grade_B
   \<and> mono (clock empty_session)
   \<and> (\<exists>r0 st0 r1 st1 r2 st2 u0 u1 u2.
         create Enrollment True grade_A empty_session = (Inr r0, st0)
       \<and> update_all Enrollment r0 [grade_B] st0 = (Inr r1, st1)
       \<and> update Enrollment r1 True grade_B st1 = (Inr r2, st2)
       \<and> getattr (attrs r1) ''created_at'' = getattr (attrs r0) ''created_at''
       \<and> getattr (attrs r2) ''created_at'' = getattr (attrs r0) ''created_at''
       \<and> getattr (attrs r0) ''updated_at'' = VDatetime u0
       \<and> getattr (attrs r1) ''updated_at'' = VDatetime u1
       \<and> getattr (attrs r2) ''updated_at'' = VDatetime u2
       \<and> u0 \<le> u1 \<and> u1 \<le> u2
       \<and> (\<exists>j. ticks st1 \<le> j \<and> j < ticks st2 \<and> u2 = clock empty_session j))"
proof -
  have tm: "table_model Enrollment" by code_simp
  have fm: "plain_fields Enrollment grade_A" by code_simp
  have sr: "supplies_required Enrollment grade_A" by code_simp
  have ups: "list_all (keeps_created_at Enrollment) [grade_B]" by code_simp
  have up: "keeps_created_at Enrollment grade_B" by code_simp
  have ne: "grade_B \<noteq> []" by (simp add: grade_B_def)
  have mono: "mono (clock empty_session)"
    by (simp add: mono_def empty_session_def)
  obtain r0 st0 r1 st1 r2 st2 u0 u1 u2 where
    "create Enrollment True grade_A empty_session = (Inr r0, st0)"
    "update_all Enrollment r0 [grade_B] st0 = (Inr r1, st1)"
    "update Enrollment r1 True grade_B st1 = (Inr r2, st2)"
    "getattr (attrs r1) ''created_at'' = getattr (attrs r0) ''created_at''"
    "getattr (attrs r2) ''created_at'' = getattr (attrs r0) ''created_at''"
    "getattr (attrs r0) ''updated_at'' = VDatetime u0"
    "getattr (attrs r1) ''updated_at'' = VDatetime u1"
    "getattr (attrs r2) ''updated_at'' = VDatetime u2"
    "u0 \<le> u1" "u1 \<le> u2"
    "grade_B \<noteq> [] \<longrightarrow> (\<exists>j. ticks st1 \<le> j \<and> j < ticks st2 \<and> u2 = clock empty_session j)"
    using timestamps_over_lifetime [OF tm fm sr ups up mono] by blast
  then have "\<exists>r0 st0 r1 st1 r2 st2 u0 u1 u2.
         create Enrollment True grade_A empty_session = (Inr r0, st0)
       \<and> update_all Enrollment r0 [grade_B] st0 = (Inr r1, st1)
       \<and> update Enrollment r1 True grade_B st1 = (Inr r2, st2)
       \<and> getattr (attrs r1) ''created_at'' = getattr (attrs r0) ''created_at''
       \<and> getattr (attrs r2) ''created_at'' = getattr (attrs r0) ''created_at''
       \<and> getattr (attrs r0) ''updated_at'' = VDatetime u0
       \<and> getattr (attrs r1) ''updated_at'' = VDatetime u1
       \<and> getattr (attrs r2) ''updated_at'' = VDatetime u2
       \<and> u0 \<le> u1 \<and> u1 \<le> u2
       \<and> (\<exists>j. ticks st1 \<le> j \<and> j < ticks st2 \<and> u2 = clock empty_session j)"
    using ne by blast
  then show ?thesis
    using tm fm sr ups up mono by simp
qed

text \<open>
  Claim C7 as stated fails. After the creation of the example enrollment the two
  timestamps are the readings 100 and 101 of a clock that advances between them, so they
  are not equal. \<open>update\<close> assigns every field it is given: an update with the field
  \<^verbatim>\<open>created_at\<close> changes \<^verbatim>\<open>created_at\<close>, and one with an earlier \<^verbatim>\<open>updated_at\<close>
  decreases \<^verbatim>\<open>updated_at\<close>. And a committed update with no field leaves
  \<^verbatim>\<open>updated_at\<close> at 101, although the clock then reads 102.
\<close>

theorem timestamps_set_by_fields:
  "fst (create Enrollment True grade_A empty_session)
     = Inr (expire_all Enrollment (load enrolled_row))
   \<and> getattr enrolled_row ''created_at'' = VDatetime 100
   \<and> getattr enrolled_row ''updated_at'' = VDatetime 101
   \<and> fst (update Enrollment (expire_all Enrollment (load enrolled_row)) True
            [(''created_at'', VDatetime 5)]
            (snd (create Enrollment True grade_A empty_session)))
       = Inr (expire_all Enrollment (load [(''id'', VInt 1), (''created_at'', VDatetime 5),
            (''updated_at'', VDatetime 102), (''student_id'', VInt 1), (''course_id'', VInt 2),
            (''grade'', VStr ''A'')]))
   \<and> fst (update Enrollment (expire_all Enrollment (load enrolled_row)) True
            [(''updated_at'', VDatetime 5)]
            (snd (create Enrollment True grade_A empty_session)))
       = Inr (expire_all Enrollment (load [(''id'', VInt 1), (''created_at'', VDatetime 100),
            (''updated_at'', VDatetime 5), (''student_id'', VInt 1), (''course_id'', VInt 2),
            (''grade'', VStr ''A'')]))
   \<and> fst (update Enrollment (expire_all Enrollment (load enrolled_row)) True []
            (snd (create Enrollment True grade_A empty_session)))
       = Inr (expire_all Enrollment (load enrolled_row))
   \<and> clock (snd (create Enrollment True grade_A empty_session))
        (ticks (snd (create Enrollment True grade_A empty_session))) = 102"
  by code_simp

end
